theory Spec2Isabelle
  imports Main "HOL-Library.AList" "HOL-Library.Sublist" "HOL-Library.Multiset"
begin

section \<open>Python values used by annotation\_collection.py\<close>

text \<open>
  Exceptions are values. \<open>ValueError\<close> carries the fixed text of its message and
  the list that the f-string interpolates into it (the model keeps the list itself, not
  its \<open>repr\<close>).
\<close>

datatype pyerror =
    FileNotFoundError string
  | ValueError string "string list"
  | KeyError string
  | TypeError
  | AttributeError string

text \<open>
  A Python \<open>dict\<close> from property name to value list is an association list in
  insertion order; the keys of a dict are distinct.
\<close>

type_synonym properties_dict = "(string \<times> string list) list"

text \<open>
  \<open>Tag\<close> and \<open>Annotation\<close> are classes of other modules; these are the attributes that
  annotation\_collection.py reads. A tag without a parent has \<open>parent = None\<close>. The
  attribute \<open>text\<close> of an annotation is the field \<open>annotation_text\<close>.
\<close>

datatype tag = Tag (name: string) (full_path: string) (parent: "tag option")

record annotation =
  uuid :: string
  author :: string
  tag :: tag
  properties :: properties_dict
  pretext :: string
  annotation_text :: string
  posttext :: string
  start_point :: int
  end_point :: int
  date :: string

section \<open>Data frames\<close>

datatype cell = Str string | Num int | Dict properties_dict | Vals "string list" | NaN

text \<open>
  A \<open>pandas.DataFrame\<close>: the length of its index and its columns in order, each
  column holding one cell per row.
\<close>

record dataframe =
  nrows :: nat
  columns :: "(string \<times> cell list) list"

definition column :: "dataframe \<Rightarrow> string \<Rightarrow> cell list option" where
  "column df c = map_of (columns df) c"

text \<open>\<open>pd.DataFrame(rows, columns=names)\<close> for a list of tuples.\<close>

definition DataFrame_rows :: "cell list list \<Rightarrow> string list \<Rightarrow> dataframe" where
  "DataFrame_rows rws names =
     \<lparr>nrows = length rws,
      columns = map (\<lambda>(j, c). (c, map (\<lambda>r. r ! j) rws)) (enumerate 0 names)\<rparr>"

text \<open>
  \<open>df[c] = values\<close>: pandas raises \<open>ValueError\<close> when the list is not as long
  as the index; an existing column is replaced in place, a new one is added last.
\<close>

definition set_column :: "dataframe \<Rightarrow> string \<Rightarrow> cell list \<Rightarrow> pyerror + dataframe" where
  "set_column df c vals =
     (if length vals \<noteq> nrows df
      then Inl (ValueError ''Length of values does not match length of index'' [])
      else Inr (df\<lparr>columns := AList.update c vals (columns df)\<rparr>))"

text \<open>\<open>df.drop(columns=c)\<close>.\<close>

definition drop_column :: "dataframe \<Rightarrow> string \<Rightarrow> pyerror + dataframe" where
  "drop_column df c =
     (if c \<in> fst ` set (columns df)
      then Inr (df\<lparr>columns := filter (\<lambda>kv. fst kv \<noteq> c) (columns df)\<rparr>)
      else Inl (KeyError c))"

section \<open>split\_property\_dict\_to\_column\<close>

type_synonym property_columns = "(string \<times> string list list) list"

text \<open>
  The body of \<open>for key in item\<close>: a key not yet in \<open>properties_dict\<close> gets
  \<open>index\<close> markers and then the value, a known key gets the value appended.
  The pair \<open>(key, v)\<close> is the key and \<open>item[key]\<close>.
\<close>

definition add_key :: "nat \<Rightarrow> string \<times> string list \<Rightarrow> property_columns \<Rightarrow> property_columns" where
  "add_key index kv properties_dict =
     (case map_of properties_dict (fst kv) of
        None \<Rightarrow> properties_dict @ [(fst kv, replicate index [''nan''] @ [snd kv])]
      | Some prev_list \<Rightarrow> AList.update (fst kv) (prev_list @ [snd kv]) properties_dict)"

text \<open>The second inner loop: every known property that the item lacks gets the marker.\<close>

definition pad_missing :: "properties_dict \<Rightarrow> property_columns \<Rightarrow> property_columns" where
  "pad_missing item properties_dict =
     map (\<lambda>pl. if map_of item (fst pl) = None then (fst pl, snd pl @ [[''nan'']]) else pl)
       properties_dict"

fun properties_loop :: "nat \<Rightarrow> properties_dict list \<Rightarrow> property_columns \<Rightarrow> property_columns" where
  "properties_loop index [] properties_dict = properties_dict"
| "properties_loop index (item # items) properties_dict =
     properties_loop (Suc index) items (pad_missing item (fold (add_key index) item properties_dict))"

text \<open>The last loop: \<open>ac_df[f'prop:{prop}'] = properties_dict[prop]\<close>.\<close>

fun assign_columns :: "property_columns \<Rightarrow> dataframe \<Rightarrow> pyerror + dataframe" where
  "assign_columns [] df = Inr df"
| "assign_columns (pl # rest) df =
     (case set_column df (''prop:'' @ fst pl) (map Vals (snd pl)) of
        Inl e \<Rightarrow> Inl e
      | Inr df' \<Rightarrow> assign_columns rest df')"

definition dict_of_cell :: "cell \<Rightarrow> properties_dict option" where
  "dict_of_cell c = (case c of Dict d \<Rightarrow> Some d | _ \<Rightarrow> None)"

definition split_property_dict_to_column :: "dataframe \<Rightarrow> pyerror + dataframe" where
  "split_property_dict_to_column ac_df =
     (case column ac_df ''properties'' of
        None \<Rightarrow> Inl (KeyError ''properties'')
      | Some cells \<Rightarrow>
          (case those (map dict_of_cell cells) of
             None \<Rightarrow> Inl TypeError
           | Some items \<Rightarrow>
               (case assign_columns (properties_loop 0 items []) ac_df of
                  Inl e \<Rightarrow> Inl e
                | Inr df \<Rightarrow> drop_column df ''properties'')))"

section \<open>ac\_to\_df\<close>

text \<open>
  \<open>clean_text_in_ac_df\<close>: \<open>re.sub('\n', ' ', s)\<close>, then \<open>re.sub(' +', ' ', s)\<close>,
  which replaces every maximal run of spaces by one space.
\<close>

fun collapse_spaces :: "string \<Rightarrow> string" where
  "collapse_spaces [] = []"
| "collapse_spaces [c] = [c]"
| "collapse_spaces (c # d # cs) =
     (if c = CHR '' '' \<and> d = CHR '' '' then collapse_spaces (d # cs)
      else c # collapse_spaces (d # cs))"

definition clean_text_in_ac_df :: "string \<Rightarrow> string" where
  "clean_text_in_ac_df annotation =
     collapse_spaces (map (\<lambda>c. if c = CHR 0x0A then CHR '' '' else c) annotation)"

definition df_columns :: "string list" where
  "df_columns =
     [''document'', ''annotation collection'', ''annotator'',
      ''tag'', ''tag_path'', ''properties'', ''left_context'', ''annotation'',
      ''right_context'', ''start_point'', ''end_point'', ''date'']"

definition clean_cell :: "cell \<Rightarrow> cell option" where
  "clean_cell c = (case c of Str s \<Rightarrow> Some (Str (clean_text_in_ac_df s)) | _ \<Rightarrow> None)"

text \<open>\<open>df[c] = df[c].apply(clean_text_in_ac_df)\<close>.\<close>

definition apply_clean :: "string \<Rightarrow> dataframe \<Rightarrow> pyerror + dataframe" where
  "apply_clean c df =
     (case column df c of
        None \<Rightarrow> Inl (KeyError c)
      | Some cells \<Rightarrow>
          (case those (map clean_cell cells) of
             None \<Rightarrow> Inl TypeError
           | Some cleaned \<Rightarrow> set_column df c cleaned))"

definition row_of :: "string \<Rightarrow> string \<Rightarrow> annotation \<Rightarrow> cell list" where
  "row_of text_title ac_name a =
     [Str text_title, Str ac_name, Str (author a), Str (name (tag a)), Str (full_path (tag a)),
      Dict (properties a), Str (pretext a), Str (annotation_text a), Str (posttext a),
      Num (start_point a), Num (end_point a), Str (date a)]"

definition ac_to_df :: "annotation list \<Rightarrow> string \<Rightarrow> string \<Rightarrow> pyerror + dataframe" where
  "ac_to_df annotations text_title ac_name =
     (case split_property_dict_to_column
             (DataFrame_rows (map (row_of text_title ac_name) annotations) df_columns) of
        Inl e \<Rightarrow> Inl e
      | Inr df1 \<Rightarrow>
          (case apply_clean ''left_context'' df1 of
             Inl e \<Rightarrow> Inl e
           | Inr df2 \<Rightarrow>
               (case apply_clean ''annotation'' df2 of
                  Inl e \<Rightarrow> Inl e
                | Inr df3 \<Rightarrow> apply_clean ''right_context'' df3)))"

section \<open>What the normalized table must hold\<close>

text \<open>
  The value of property \<open>k\<close> in one annotation's row: its value list, or the
  one-element missing marker.
\<close>

definition value_of :: "string \<Rightarrow> properties_dict \<Rightarrow> string list" where
  "value_of k item = (case map_of item k of None \<Rightarrow> [''nan''] | Some v \<Rightarrow> v)"

text \<open>The property columns for a list of keys over the items processed so far.\<close>

definition property_table :: "string list \<Rightarrow> properties_dict list \<Rightarrow> property_columns" where
  "property_table keys items = map (\<lambda>k. (k, map (value_of k) items)) keys"

text \<open>The property names in the order in which the loop first meets them.\<close>

fun seen_keys :: "string list \<Rightarrow> properties_dict list \<Rightarrow> string list" where
  "seen_keys keys [] = keys"
| "seen_keys keys (item # items) =
     seen_keys (keys @ filter (\<lambda>k. k \<notin> set keys) (map fst item)) items"

text \<open>The fixed columns of the table of a list of annotations, and its property columns.\<close>

definition fixed_part :: "annotation list \<Rightarrow> string \<Rightarrow> string \<Rightarrow> (string \<times> cell list) list" where
  "fixed_part anns t n =
     [(''document'', map (\<lambda>a. Str t) anns),
      (''annotation collection'', map (\<lambda>a. Str n) anns),
      (''annotator'', map (\<lambda>a. Str (author a)) anns),
      (''tag'', map (\<lambda>a. Str (name (tag a))) anns),
      (''tag_path'', map (\<lambda>a. Str (full_path (tag a))) anns),
      (''left_context'', map (\<lambda>a. Str (clean_text_in_ac_df (pretext a))) anns),
      (''annotation'', map (\<lambda>a. Str (clean_text_in_ac_df (annotation_text a))) anns),
      (''right_context'', map (\<lambda>a. Str (clean_text_in_ac_df (posttext a))) anns),
      (''start_point'', map (\<lambda>a. Num (start_point a)) anns),
      (''end_point'', map (\<lambda>a. Num (end_point a)) anns),
      (''date'', map (\<lambda>a. Str (date a)) anns)]"

definition property_part :: "annotation list \<Rightarrow> (string \<times> cell list) list" where
  "property_part anns =
     map (\<lambda>k. (''prop:'' @ k, map (\<lambda>a. Vals (value_of k (properties a))) anns))
       (seen_keys [] (map properties anns))"

text \<open>Two annotations used to run the definitions on concrete data.\<close>

definition example_annotations :: "annotation list" where
  "example_annotations =
     [\<lparr>uuid = ''CATMA_1'', author = ''ann'',
       tag = Tag ''Hero'' ''/Plot/Character/Hero''
               (Some (Tag ''Character'' ''/Plot/Character'' (Some (Tag ''Plot'' ''/Plot'' None)))),
       properties = [(''mood'', [''sad'', ''calm'']), (''certainty'', [])],
       pretext = ''Once '', annotation_text = ''the  knight'', posttext = '' rode'',
       start_point = 5, end_point = 16, date = ''2024-01-01''\<rparr>,
      \<lparr>uuid = ''CATMA_2'', author = ''bob'',
       tag = Tag ''Setting'' ''/Plot/Setting'' (Some (Tag ''Plot'' ''/Plot'' None)),
       properties = [], pretext = ''rode '', annotation_text = ''home'', posttext = ''.'',
       start_point = 22, end_point = 26, date = ''2024-01-02''\<rparr>]"

section \<open>most\_common\_token\<close>

text \<open>
  \<open>string.punctuation\<close>: the 32 ASCII punctuation characters
  \<^verbatim>\<open>!"#$%&'()*+,-./:;<=>?@[\]^_`{|}~\<close>.
\<close>

definition punctuation :: string where
  "punctuation =
     [CHR ''!'', CHR 0x22, CHR ''#'', CHR ''$'', CHR ''%'', CHR ''&'', CHR 0x27, CHR ''('',
      CHR '')'', CHR ''*'', CHR ''+'', CHR '','', CHR ''-'', CHR ''.'', CHR ''/'', CHR '':'',
      CHR '';'', CHR ''<'', CHR ''='', CHR ''>'', CHR ''?'', CHR ''@'', CHR ''['', CHR 0x5C,
      CHR '']'', CHR ''^'', CHR ''_'', CHR 0x60, CHR ''{'', CHR ''|'', CHR ''}'', CHR ''~'']"

text \<open>\<open>s.translate(str.maketrans('', '', string.punctuation))\<close> deletes these characters.\<close>

definition remove_punctuation :: "string \<Rightarrow> string" where
  "remove_punctuation str_item = filter (\<lambda>c. c \<notin> set punctuation) str_item"

text \<open>
  \<open>s.split(sep)\<close> for a one-character separator: a cut at every separator, so two
  separators in a row give an empty string and the empty string gives \<open>['']\<close>.
\<close>

fun split_char :: "char \<Rightarrow> string \<Rightarrow> string list" where
  "split_char sep [] = [[]]"
| "split_char sep (c # cs) =
     (if c = sep then [] # split_char sep cs
      else (case split_char sep cs of [] \<Rightarrow> [[c]] | w # ws \<Rightarrow> (c # w) # ws))"

text \<open>\<open>while '' in token_list: token_list.remove('')\<close>; \<open>remove\<close> deletes the first occurrence.\<close>

function remove_empty_tokens :: "string list \<Rightarrow> string list" where
  "remove_empty_tokens token_list =
     (if [] \<in> set token_list then remove_empty_tokens (remove1 [] token_list) else token_list)"
  by pat_completeness auto

termination
proof (relation "measure length")
  show "wf (measure length)" by simp
next
  fix token_list :: "string list"
  assume "[] \<in> set token_list"
  then have "0 < length token_list" by (rule length_pos_if_in_set)
  moreover have "length (remove1 [] token_list) = length token_list - 1"
    using \<open>[] \<in> set token_list\<close> by (simp add: length_remove1)
  ultimately show "(remove1 [] token_list, token_list) \<in> measure length" by simp
qed

declare remove_empty_tokens.simps [simp del]

text \<open>
  \<open>if stopwords:\<close> holds for a list that is given and not empty; the comprehension keeps
  the tokens that are not in it.
\<close>

definition drop_stopwords :: "string list option \<Rightarrow> string list \<Rightarrow> string list" where
  "drop_stopwords stopwords token_list =
     (case stopwords of
        None \<Rightarrow> token_list
      | Some sw \<Rightarrow> if sw = [] then token_list else filter (\<lambda>token. token \<notin> set sw) token_list)"

text \<open>
  \<open>Counter(token_list)\<close>: a dict in insertion order, one more for each occurrence.
\<close>

definition count_token :: "string \<Rightarrow> (string \<times> nat) list \<Rightarrow> (string \<times> nat) list" where
  "count_token token counter =
     (case map_of counter token of
        None \<Rightarrow> counter @ [(token, 1)]
      | Some c \<Rightarrow> AList.update token (c + 1) counter)"

definition Counter :: "string list \<Rightarrow> (string \<times> nat) list" where
  "Counter token_list = fold count_token token_list []"

text \<open>
  \<open>most_common(n)\<close> is \<open>heapq.nlargest(n, items, key=count)\<close>, which is
  \<open>sorted(items, key=count, reverse=True)[:n]\<close>: a stable sort by falling count, cut
  after \<open>n\<close> entries (none when \<open>n\<close> is negative).
\<close>

definition most_common :: "int \<Rightarrow> (string \<times> nat) list \<Rightarrow> (string \<times> nat) list" where
  "most_common n counter = take (nat n) (sort_key (\<lambda>kv. - int (snd kv)) counter)"

definition most_common_token :: "string list \<Rightarrow> string list option \<Rightarrow> int \<Rightarrow> (string \<times> nat) list" where
  "most_common_token annotation_col stopwords ranking =
     most_common ranking
       (Counter
         (drop_stopwords stopwords
           (remove_empty_tokens
             (fold (\<lambda>str_item token_list.
                      token_list @ split_char CHR '' '' (remove_punctuation str_item))
                annotation_col []))))"

section \<open>The token ranking in the specification's words\<close>

text \<open>
  Strip the punctuation from each text, split it on single spaces, drop the empty tokens
  and, when a stopword list is given, the stopwords.
\<close>

definition kept_tokens :: "string list \<Rightarrow> string list option \<Rightarrow> string list" where
  "kept_tokens texts stopwords =
     filter (\<lambda>t. t \<noteq> [] \<and> (case stopwords of None \<Rightarrow> True | Some sw \<Rightarrow> t \<notin> set sw))
       (concat (map (\<lambda>s. split_char CHR '' '' (remove_punctuation s)) texts))"

text \<open>The distinct tokens in the order in which they are first met.\<close>

fun first_occurrences :: "'a list \<Rightarrow> 'a list" where
  "first_occurrences [] = []"
| "first_occurrences (x # xs) = x # filter (\<lambda>y. y \<noteq> x) (first_occurrences xs)"

text \<open>Each distinct token with its frequency, in first-met order.\<close>

definition token_frequencies :: "string list \<Rightarrow> (string \<times> nat) list" where
  "token_frequencies tokens = map (\<lambda>t. (t, count_list tokens t)) (first_occurrences tokens)"

section \<open>AnnotationCollection\<close>

text \<open>
  The content of \<open>header.json\<close> and the attributes of the parent project that the
  constructor reads.
\<close>

record collection_header =
  header_name :: string
  sourceDocumentId :: string
  sourceDocumentVersion :: "string option"

record catma_project =
  cp_uuid :: string
  cp_projects_directory :: string

text \<open>
  What the constructor reads: \<open>header_json\<close> gives the parsed content of a header file, or
  \<open>None\<close> when no file is at that path (\<open>open\<close> raises \<open>FileNotFoundError\<close>);
  \<open>annotation_pages\<close> gives, for a path that is a directory, the annotations that
  \<open>sorted(list(load_annotations(...)))\<close> builds from its page files, or \<open>None\<close> when
  \<open>os.path.isdir\<close> is false; \<open>document_title\<close> is the title of the \<open>Text\<close> of a
  document.
\<close>

record storage =
  header_json :: "string \<Rightarrow> collection_header option"
  annotation_pages :: "string \<Rightarrow> annotation list option"
  document_title :: "string \<Rightarrow> string"

text \<open>
  The attributes of an \<open>AnnotationCollection\<close>. Its \<open>uuid\<close> and \<open>name\<close> are the fields
  \<open>ac_uuid\<close> and \<open>collection_name\<close>; of its \<open>text\<close> the title is kept.
\<close>

record annotation_collection =
  ac_uuid :: string
  projects_directory :: string
  project_uuid :: string
  directory :: string
  header :: collection_header
  collection_name :: string
  plain_text_id :: string
  text_title :: string
  text_version :: "string option"
  annotations :: "annotation list"
  tags :: "tag list option"
  df :: dataframe

text \<open>\<open>pd.DataFrame(columns=names)\<close>: the columns, no rows.\<close>

definition DataFrame_columns :: "string list \<Rightarrow> dataframe" where
  "DataFrame_columns names = \<lparr>nrows = 0, columns = map (\<lambda>c. (c, [])) names\<rparr>"

text \<open>
  The message of the \<open>FileNotFoundError\<close>; the backslash at the end of the source line
  continues the string literal, so the indentation of the next line is part of it.
\<close>

definition not_found_message :: "string \<Rightarrow> string" where
  "not_found_message dir =
     ''The annotation collection at this path could not be found: '' @ dir @ [CHR 0x0A]
     @ ''                    --> Make sure the CATMA project clone worked properly.''"

text \<open>
  \<open>AnnotationCollection.__init__\<close>. Without an \<open>annotations/\<close> directory the object has
  no annotations, the table \<open>pd.DataFrame(columns=df_columns)\<close>, and no \<open>tags\<close> attribute.
  The argument \<open>context\<close> only reaches \<open>load_annotations\<close>, which \<open>annotation_pages\<close>
  stands for.
\<close>

definition AnnotationCollection ::
  "storage \<Rightarrow> string \<Rightarrow> catma_project \<Rightarrow> pyerror + annotation_collection" where
  "AnnotationCollection st uuid' project =
     (let dir = cp_uuid project @ ''/collections/'' @ uuid' @ ''/'' in
      case header_json st (dir @ ''header.json'') of
        None \<Rightarrow> Inl (FileNotFoundError (not_found_message dir))
      | Some h \<Rightarrow>
          (let self =
             \<lparr>ac_uuid = uuid',
              projects_directory = cp_projects_directory project,
              project_uuid = cp_uuid project,
              directory = dir,
              header = h,
              collection_name = header_name h,
              plain_text_id = sourceDocumentId h,
              text_title = document_title st (sourceDocumentId h),
              text_version = sourceDocumentVersion h,
              annotations = [],
              tags = None,
              df = DataFrame_columns df_columns\<rparr>
           in case annotation_pages st (dir @ ''annotations/'') of
                None \<Rightarrow> Inr self
              | Some loaded \<Rightarrow>
                  (case ac_to_df loaded (text_title self) (collection_name self) of
                     Inl e \<Rightarrow> Inl e
                   | Inr d \<Rightarrow>
                       Inr (self\<lparr>annotations := loaded, tags := Some (map tag loaded), df := d\<rparr>))))"

section \<open>get\_annotation\_by\_tag\<close>

text \<open>
  The list comprehension: \<open>or\<close> evaluates its right operand only when the left one is
  false, and \<open>annotation.tag.parent.name\<close> raises \<open>AttributeError\<close> when the parent is
  \<open>None\<close>.
\<close>

fun annotations_by_tag :: "annotation list \<Rightarrow> string \<Rightarrow> pyerror + annotation list" where
  "annotations_by_tag [] tag_name = Inr []"
| "annotations_by_tag (annotation # rest) tag_name =
     (if name (tag annotation) = tag_name
      then (case annotations_by_tag rest tag_name of
              Inl e \<Rightarrow> Inl e
            | Inr found \<Rightarrow> Inr (annotation # found))
      else (case parent (tag annotation) of
              None \<Rightarrow> Inl (AttributeError ''name'')
            | Some p \<Rightarrow>
                (case annotations_by_tag rest tag_name of
                   Inl e \<Rightarrow> Inl e
                 | Inr found \<Rightarrow> Inr (if name p = tag_name then annotation # found else found))))"

definition get_annotation_by_tag :: "annotation_collection \<Rightarrow> string \<Rightarrow> pyerror + annotation list" where
  "get_annotation_by_tag self tag_name = annotations_by_tag (annotations self) tag_name"

section \<open>Strings\<close>

text \<open>\<open>sub in s\<close> for two strings.\<close>

fun str_in :: "string \<Rightarrow> string \<Rightarrow> bool" where
  "str_in sub [] = (sub = [])"
| "str_in sub (c # cs) = (prefix sub (c # cs) \<or> str_in sub cs)"

text \<open>
  \<open>s.replace(old, new)\<close>: every occurrence of \<open>old\<close>, from the left, without overlap; an
  empty \<open>old\<close> matches before every character and at the end.
\<close>

function str_replace :: "string \<Rightarrow> string \<Rightarrow> string \<Rightarrow> string" where
  "str_replace old new s =
     (if old = [] then new @ concat (map (\<lambda>c. c # new) s)
      else if s = [] then []
      else if prefix old s then new @ str_replace old new (drop (length old) s)
      else hd s # str_replace old new (tl s))"
  by pat_completeness auto

termination
  by (relation "measure (\<lambda>(old, new, s). length s)") auto

declare str_replace.simps [simp del]

section \<open>filter\_by\_tag\_path\<close>

text \<open>
  \<open>Series.str.contains(pat)\<close> has \<open>regex=True\<close> by default: an element is kept when
  \<open>re.search(pat, element)\<close> finds a match. The model covers the patterns made of ordinary
  characters and dots: an ordinary character matches itself, a dot matches every character
  but a newline. A pattern with another regex metacharacter is outside the model
  (\<open>None\<close>).
\<close>

definition regex_metachars :: string where
  "regex_metachars =
     [CHR ''^'', CHR ''$'', CHR ''*'', CHR ''+'', CHR ''?'', CHR ''{'', CHR ''}'', CHR ''['',
      CHR '']'', CHR ''|'', CHR ''('', CHR '')'', CHR 0x5C]"

fun match_here :: "string \<Rightarrow> string \<Rightarrow> bool" where
  "match_here [] s = True"
| "match_here (p # ps) [] = False"
| "match_here (p # ps) (c # cs) =
     ((if p = CHR ''.'' then c \<noteq> CHR 0x0A else p = c) \<and> match_here ps cs)"

fun re_search :: "string \<Rightarrow> string \<Rightarrow> bool" where
  "re_search pat [] = match_here pat []"
| "re_search pat (c # cs) = (match_here pat (c # cs) \<or> re_search pat cs)"

definition contains_cell :: "string \<Rightarrow> cell \<Rightarrow> bool option" where
  "contains_cell pat c = (case c of Str s \<Rightarrow> Some (re_search pat s) | _ \<Rightarrow> None)"

text \<open>\<open>df[mask]\<close>: the rows at which the mask is true.\<close>

definition select_rows :: "bool list \<Rightarrow> dataframe \<Rightarrow> dataframe" where
  "select_rows keep d =
     \<lparr>nrows = length (filter id keep),
      columns = map (\<lambda>cv. (fst cv, map snd (filter fst (zip keep (snd cv))))) (columns d)\<rparr>"

text \<open>
  \<open>self.df[self.df.tag_path.str.contains(path_element)]\<close>. An element that is not a string
  gives a missing value in the mask, and indexing with such a mask raises \<open>ValueError\<close>.
\<close>

definition filter_by_tag_path ::
  "annotation_collection \<Rightarrow> string \<Rightarrow> (pyerror + dataframe) option" where
  "filter_by_tag_path self path_element =
     (if \<exists>c\<in>set path_element. c \<in> set regex_metachars then None
      else Some
        (case column (df self) ''tag_path'' of
           None \<Rightarrow> Inl (AttributeError ''tag_path'')
         | Some cells \<Rightarrow>
             (case those (map (contains_cell path_element) cells) of
                None \<Rightarrow> Inl (ValueError ''Cannot mask with non-boolean array containing NA / NaN values'' [])
              | Some keep \<Rightarrow> Inr (select_rows keep (df self)))))"

section \<open>duplicate\_by\_prop\<close>

definition rows_of :: "dataframe \<Rightarrow> cell list list" where
  "rows_of d = map (\<lambda>i. map (\<lambda>cv. snd cv ! i) (columns d)) [0..<nrows d]"

text \<open>
  Modelled from the spec: \<open>duplicate_rows\<close> of \<open>gitma_canspin._vizualize\<close> is not among the
  sources. Section 4.3: for a chosen property column, it returns a table where rows with N
  values for that property become N rows, each with a single value substituted in. The
  callers \<open>tag_stats\<close> and \<open>property_stats\<close> pass it the name of a column of the table;
  reading a column that the table does not have is a \<open>KeyError\<close>, the exception that
  \<open>duplicate_by_prop\<close> catches.
\<close>

definition duplicate_rows :: "dataframe \<Rightarrow> string \<Rightarrow> pyerror + dataframe" where
  "duplicate_rows ac_df property_col =
     (if property_col \<notin> fst ` set (columns ac_df) then Inl (KeyError property_col)
      else
        (let names = map fst (columns ac_df);
             j = length (takeWhile (\<lambda>c. c \<noteq> property_col) names)
         in Inr (DataFrame_rows
                  (concat (map (\<lambda>r. case r ! j of
                                       Vals vs \<Rightarrow> map (\<lambda>v. r[j := Str v]) vs
                                     | _ \<Rightarrow> [r])
                             (rows_of ac_df)))
                  names)))"

text \<open>
  \<open>duplicate_by_prop\<close> passes \<open>prop\<close> on as the column name. On \<open>KeyError\<close> it raises
  \<open>ValueError\<close> with the list \<open>[item.replace('prop:', '') for item in self.df.columns if
  'prop:' in item]\<close>.
\<close>

definition duplicate_by_prop :: "annotation_collection \<Rightarrow> string \<Rightarrow> pyerror + dataframe" where
  "duplicate_by_prop self prop =
     (case duplicate_rows (df self) prop of
        Inr duplicated \<Rightarrow> Inr duplicated
      | Inl (KeyError k) \<Rightarrow>
          Inl (ValueError (''Given Property doesn'' @ [CHR 0x27] @ ''t exist. Choose one of these: '')
                 (map (str_replace ''prop:'' [])
                    (filter (str_in ''prop:'') (map fst (columns (df self))))))
      | Inl e \<Rightarrow> Inl e)"

section \<open>Example collections\<close>

definition example_project :: catma_project where
  "example_project = \<lparr>cp_uuid = ''CATMA_P'', cp_projects_directory = ''/data/''\<rparr>"

definition example_header :: collection_header where
  "example_header =
     \<lparr>header_name = ''Plot annotations'', sourceDocumentId = ''D_1'',
      sourceDocumentVersion = None\<rparr>"

text \<open>An annotation whose only property has a name that contains \<open>prop:\<close>.\<close>

definition prefixed_annotations :: "annotation list" where
  "prefixed_annotations =
     [\<lparr>uuid = ''CATMA_7'', author = ''ann'', tag = Tag ''Plot'' ''/Plot'' None,
       properties = [(''prop:a'', [''x''])], pretext = [], annotation_text = ''sea'',
       posttext = [], start_point = 0, end_point = 3, date = ''2024-01-03''\<rparr>]"

text \<open>An annotation with a property value that contains a comma.\<close>

definition comma_annotations :: "annotation list" where
  "comma_annotations =
     [\<lparr>uuid = ''CATMA_9'', author = ''ann'', tag = Tag ''Plot'' ''/Plot'' None,
       properties = [(''mood'', [''sad, calm''])], pretext = [], annotation_text = ''sea'',
       posttext = [], start_point = 0, end_point = 3, date = ''2024-01-04''\<rparr>]"

text \<open>
  Five collections on disk: \<open>C_1\<close> with the two example annotations, \<open>C_2\<close> with a header
  and no \<open>annotations/\<close> directory, \<open>C_3\<close> without a header, \<open>C_4\<close> and \<open>C_5\<close> with
  the two annotations above.
\<close>

definition example_storage :: storage where
  "example_storage =
     \<lparr>header_json =
        [''CATMA_P/collections/C_1/header.json'' \<mapsto> example_header,
         ''CATMA_P/collections/C_2/header.json'' \<mapsto> example_header,
         ''CATMA_P/collections/C_4/header.json'' \<mapsto> example_header,
         ''CATMA_P/collections/C_5/header.json'' \<mapsto> example_header],
      annotation_pages =
        [''CATMA_P/collections/C_1/annotations/'' \<mapsto> example_annotations,
         ''CATMA_P/collections/C_4/annotations/'' \<mapsto> prefixed_annotations,
         ''CATMA_P/collections/C_5/annotations/'' \<mapsto> comma_annotations],
      document_title = (\<lambda>d. ''Novel'')\<rparr>"

section \<open>write\_annotation\_csv\<close>

text \<open>The argument \<open>tags\<close> is the string \<open>'all'\<close>, or a list of tag names (or another string).\<close>

datatype str_or_list = PyStr string | PyList "string list"

text \<open>\<open>an.tag.name in tags\<close>: membership in a list, a substring test in a string.\<close>

definition tag_selected :: "str_or_list \<Rightarrow> string \<Rightarrow> bool" where
  "tag_selected tags_arg tag_name =
     (case tags_arg of PyStr s \<Rightarrow> str_in tag_name s | PyList l \<Rightarrow> tag_name \<in> set l)"

definition selected_annotations :: "annotation_collection \<Rightarrow> str_or_list \<Rightarrow> annotation list" where
  "selected_annotations self tags_arg =
     (if tags_arg = PyStr ''all'' then annotations self
      else filter (\<lambda>an. tag_selected tags_arg (name (tag an))) (annotations self))"

definition selected_properties :: "annotation_collection \<Rightarrow> string \<Rightarrow> string list" where
  "selected_properties self property =
     (if property = ''all''
      then map (str_replace ''prop:'' []) (filter (str_in ''prop:'') (map fst (columns (df self))))
      else [property])"

text \<open>\<open>sep.join(values)\<close>.\<close>

fun join :: "string \<Rightarrow> string list \<Rightarrow> string" where
  "join sep [] = []"
| "join sep [v] = v"
| "join sep (v # w # ws) = v @ sep @ join sep (w # ws)"

text \<open>
  The two dict literals, with their keys in the order of the source: the first is appended
  when \<open>only_missing_prop_values\<close> is true, the second when it is false.
\<close>

definition missing_value_row :: "annotation_collection \<Rightarrow> annotation \<Rightarrow> string \<Rightarrow> (string \<times> string) list" where
  "missing_value_row self an prop =
     [(''id'', uuid an),
      (''annotation_collection'', collection_name self),
      (''tag'', name (tag an)),
      (''text'', clean_text_in_ac_df (annotation_text an)),
      (''property'', prop),
      (''values'', [])]"

definition value_row ::
  "annotation_collection \<Rightarrow> annotation \<Rightarrow> string \<Rightarrow> string list \<Rightarrow> (string \<times> string) list" where
  "value_row self an prop vals =
     [(''id'', uuid an),
      (''annotation_collection'', collection_name self),
      (''text'', clean_text_in_ac_df (annotation_text an)),
      (''tag'', name (tag an)),
      (''property'', prop),
      (''values'', join '','' vals)]"

text \<open>The body of \<open>for an in annotations\<close>; the pair \<open>pv\<close> is \<open>prop\<close> and \<open>an.properties[prop]\<close>.\<close>

definition output_rows ::
  "annotation_collection \<Rightarrow> string list \<Rightarrow> bool \<Rightarrow> annotation \<Rightarrow> (string \<times> string) list list" where
  "output_rows self props only_missing_prop_values an =
     concat (map (\<lambda>pv.
        if fst pv \<in> set props
        then (if only_missing_prop_values
              then (if length (snd pv) < 1 then [missing_value_row self an (fst pv)] else [])
              else [value_row self an (fst pv) (snd pv)])
        else []) (properties an))"

text \<open>
  \<open>pd.DataFrame(dicts)\<close> for a list of dicts: the columns are the keys in the order in
  which they are first met, a key that a dict lacks gives a missing value.
\<close>

definition DataFrame_dicts :: "(string \<times> string) list list \<Rightarrow> dataframe" where
  "DataFrame_dicts dicts =
     \<lparr>nrows = length dicts,
      columns =
        map (\<lambda>c. (c, map (\<lambda>d. case map_of d c of None \<Rightarrow> NaN | Some v \<Rightarrow> Str v) dicts))
          (first_occurrences (concat (map (map fst) dicts)))\<rparr>"

text \<open>
  The file that \<open>to_csv\<close> writes is kept as its path, its separator and the table handed
  over; \<open>index=None\<close> writes no index column.
\<close>

record csv_file =
  csv_path :: string
  csv_sep :: char
  csv_table :: dataframe

definition write_annotation_csv ::
  "annotation_collection \<Rightarrow> str_or_list \<Rightarrow> string \<Rightarrow> bool \<Rightarrow> string \<Rightarrow> csv_file" where
  "write_annotation_csv self tags_arg property only_missing_prop_values filename =
     \<lparr>csv_path = filename @ ''.csv'',
      csv_sep = CHR '';'',
      csv_table =
        DataFrame_dicts
          (concat (map (output_rows self (selected_properties self property) only_missing_prop_values)
                     (selected_annotations self tags_arg)))\<rparr>"

section \<open>read\_annotation\_csv\<close>

text \<open>
  A row of the table that \<open>pd.read_csv\<close> returned: a cell for each column name. An empty
  field is a missing value, which is not a \<open>str\<close>.
\<close>

type_synonym csv_row = "(string \<times> cell) list"

text \<open>
  \<open>set_property_values\<close> belongs to \<open>Annotation\<close>; a call is recorded with the annotation
  it is made on and its three arguments.
\<close>

record set_property_values_call =
  target :: annotation
  tag_arg :: cell
  prop_arg :: cell
  value_arg :: "string list"

text \<open>\<open>{an.uuid: an for an in self.annotations}\<close>: a later annotation replaces an earlier one.\<close>

definition annotation_dict :: "annotation_collection \<Rightarrow> (string \<rightharpoonup> annotation)" where
  "annotation_dict self = fold (\<lambda>an d. d(uuid an \<mapsto> an)) (annotations self) Map.empty"

definition getitem :: "csv_row \<Rightarrow> string \<Rightarrow> pyerror + cell" where
  "getitem row c = (case map_of row c of None \<Rightarrow> Inl (KeyError c) | Some v \<Rightarrow> Inr v)"

text \<open>
  The body of \<open>try\<close>: \<open>Some\<close> of the call made in the \<open>if\<close> branch, \<open>None\<close> for the
  \<open>else\<close> branch, or the exception. The annotation is looked up before the arguments are
  evaluated; a key of \<open>an_dict\<close> is a \<open>str\<close>.
\<close>

definition try_row ::
  "(string \<rightharpoonup> annotation) \<Rightarrow> csv_row \<Rightarrow> pyerror + set_property_values_call option" where
  "try_row an_dict row =
     (case getitem row ''values'' of
        Inl e \<Rightarrow> Inl e
      | Inr (Str vals) \<Rightarrow>
          (case getitem row ''id'' of
             Inl e \<Rightarrow> Inl e
           | Inr i \<Rightarrow>
               (case (case i of Str u \<Rightarrow> an_dict u | _ \<Rightarrow> None) of
                  None \<Rightarrow> Inl (KeyError ''id'')
                | Some an \<Rightarrow>
                    (case getitem row ''tag'' of
                       Inl e \<Rightarrow> Inl e
                     | Inr t \<Rightarrow>
                         (case getitem row ''property'' of
                            Inl e \<Rightarrow> Inl e
                          | Inr p \<Rightarrow>
                              Inr (Some \<lparr>target = an, tag_arg = t, prop_arg = p,
                                         value_arg = split_char CHR '','' vals\<rparr>)))))
      | Inr other \<Rightarrow> Inr None)"

record import_state =
  calls :: "set_property_values_call list"
  annotation_counter :: nat
  missed_annotation_counter :: nat

text \<open>One turn of the loop, with its \<open>except KeyError\<close>.\<close>

definition import_row ::
  "(string \<rightharpoonup> annotation) \<Rightarrow> csv_row \<Rightarrow> import_state \<Rightarrow> pyerror + import_state" where
  "import_row an_dict row s =
     (case try_row an_dict row of
        Inr (Some call) \<Rightarrow>
          Inr (s\<lparr>calls := calls s @ [call], annotation_counter := annotation_counter s + 1\<rparr>)
      | Inr None \<Rightarrow> Inr (s\<lparr>missed_annotation_counter := missed_annotation_counter s + 1\<rparr>)
      | Inl (KeyError k) \<Rightarrow> Inr (s\<lparr>missed_annotation_counter := missed_annotation_counter s + 1\<rparr>)
      | Inl e \<Rightarrow> Inl e)"

fun import_rows ::
  "(string \<rightharpoonup> annotation) \<Rightarrow> csv_row list \<Rightarrow> import_state \<Rightarrow> pyerror + import_state" where
  "import_rows an_dict [] s = Inr s"
| "import_rows an_dict (row # rows) s =
     (case import_row an_dict row s of
        Inl e \<Rightarrow> Inl e
      | Inr s' \<Rightarrow> import_rows an_dict rows s')"

text \<open>The decimal digits of a number, as an f-string prints it.\<close>

function str_nat :: "nat \<Rightarrow> string" where
  "str_nat n = (if n < 10 then [char_of (48 + n)] else str_nat (n div 10) @ [char_of (48 + n mod 10)])"
  by pat_completeness auto

termination
  by (relation "measure id") auto

declare str_nat.simps [simp del]

text \<open>
  What the caller of \<open>read_annotation_csv\<close> can observe: the calls made on the annotations,
  the lines printed and the git commands run. The function returns \<open>None\<close>. The changes
  of the working directory around the loop are left out.
\<close>

record import_report =
  calls_made :: "set_property_values_call list"
  printed :: "string list"
  commands :: "string list list"

definition read_annotation_csv ::
  "annotation_collection \<Rightarrow> csv_row list \<Rightarrow> bool \<Rightarrow> pyerror + import_report" where
  "read_annotation_csv self annotation_table push_to_gitlab =
     (case import_rows (annotation_dict self) annotation_table
             \<lparr>calls = [], annotation_counter = 0, missed_annotation_counter = 0\<rparr> of
        Inl e \<Rightarrow> Inl e
      | Inr s \<Rightarrow>
          Inr \<lparr>calls_made = calls s,
               printed =
                 [''Updated values for '' @ str_nat (annotation_counter s) @ '' annotations.'']
                 @ (if push_to_gitlab then []
                    else [''Your annotations are stored in '' @ directory self]),
               commands =
                 (if push_to_gitlab
                  then [[''git'', ''add'', ''.''],
                        [''git'', ''commit'', ''-m'', ''new property annotations''],
                        [''git'', ''push'', ''origin'', ''HEAD:master'']]
                  else [])\<rparr>)"

text \<open>Collection \<open>C_1\<close> as the constructor builds it.\<close>

definition example_collection :: annotation_collection where
  "example_collection =
     \<lparr>ac_uuid = ''C_1'', projects_directory = ''/data/'', project_uuid = ''CATMA_P'',
      directory = ''CATMA_P/collections/C_1/'', header = example_header,
      collection_name = ''Plot annotations'', plain_text_id = ''D_1'', text_title = ''Novel'',
      text_version = None, annotations = example_annotations,
      tags = Some (map tag example_annotations),
      df = \<lparr>nrows = 2,
             columns = fixed_part example_annotations ''Novel'' ''Plot annotations''
                       @ property_part example_annotations\<rparr>\<rparr>"

text \<open>A row of an import table whose identifier belongs to no annotation.\<close>

definition unknown_id_row :: csv_row where
  "unknown_id_row =
     [(''id'', Str ''CATMA_0''), (''annotation_collection'', Str ''Plot annotations''),
      (''text'', Str ''the knight''), (''tag'', Str ''Hero''), (''property'', Str ''mood''),
      (''values'', Str ''glad'')]"

text \<open>The call that a row leads to, if it leads to one.\<close>

definition row_call :: "(string \<rightharpoonup> annotation) \<Rightarrow> csv_row \<Rightarrow> set_property_values_call option" where
  "row_call an_dict row = (case try_row an_dict row of Inr (Some call) \<Rightarrow> Some call | _ \<Rightarrow> None)"

section \<open>pd.read\_csv on the exported file\<close>

text \<open>
  Line 617 is \<open>pd.read_csv(filename, sep=";")\<close> with no other argument, so the defaults of
  pandas decide what a written field comes back as. \<open>na_values\<close> is the list of strings that
  pandas reads as a missing value by default (\<open>keep_default_na=True\<close>), as its documentation
  gives it; the empty field is one of them.
\<close>

definition na_values :: "string list" where
  "na_values =
     [[], ''#N/A'', ''#N/A N/A'', ''#NA'', ''-1.#IND'', ''-1.#QNAN'', ''-NaN'', ''-nan'',
      ''1.#IND'', ''1.#QNAN'', ''<NA>'', ''N/A'', ''NA'', ''NULL'', ''NaN'', ''None'', ''n/a'',
      ''nan'', ''null'']"

text \<open>
  Without a \<open>dtype\<close> argument pandas infers the type of each column: it tries integers,
  floating-point numbers and truth values in turn, and keeps the column as strings when a
  field fits none of them. A number is written with the characters of \<open>number_chars\<close>
  (digits, a sign, a point, an exponent letter, white space around it) or is one of
  \<open>float_words\<close>, for infinity and not-a-number, in any case; a truth value is one of
  \<open>true_false_values\<close> in any case.
\<close>

definition number_chars :: string where
  "number_chars =
     ''0123456789+-.eE'' @ [CHR 0x09, CHR 0x0A, CHR 0x0B, CHR 0x0C, CHR 0x0D, CHR '' '']"

definition float_words :: "string list" where
  "float_words =
     [''inf'', ''+inf'', ''-inf'', ''infinity'', ''+infinity'', ''-infinity'',
      ''nan'', ''+nan'', ''-nan'']"

definition true_false_values :: "string list" where
  "true_false_values = [''true'', ''false'']"

text \<open>The lower-case form of an ASCII letter; every other character is left as it is.\<close>

definition ascii_lower :: "char \<Rightarrow> char" where
  "ascii_lower c =
     (let n = of_char c :: nat in if 65 \<le> n \<and> n \<le> 90 then char_of (n + 32) else c)"

text \<open>
  A field that is no missing-value marker, no truth value and none of \<open>float_words\<close>,
  and that holds a character that no number has, fits none of the types tried: it is read
  as the \<open>str\<close> that was written, whatever else its column holds. Such a field is not
  empty.
\<close>

definition kept_as_str :: "string \<Rightarrow> bool" where
  "kept_as_str s \<longleftrightarrow>
     s \<notin> set na_values
     \<and> map ascii_lower s \<notin> set (true_false_values @ float_words)
     \<and> (\<exists>c\<in>set s. c \<notin> set number_chars)"

text \<open>
  What a written cell is read as. A missing value is written as the empty field. For a
  field that may be a number or a truth value the outcome depends on the other fields of its
  column, and is left open here.
\<close>

definition field_read :: "cell \<Rightarrow> cell \<Rightarrow> bool" where
  "field_read written got =
     (case written of
        Str s \<Rightarrow>
          (if s \<in> set na_values then got = NaN
           else if kept_as_str s then got = Str s
           else True)
      | NaN \<Rightarrow> got = NaN
      | _ \<Rightarrow> True)"

text \<open>
  \<open>pd_read_csv file annotation_table\<close>: reading the file that \<open>to_csv\<close> wrote returns the
  table \<open>annotation_table\<close>, given by its rows as \<open>iterrows\<close> yields them. The table has the
  columns and the rows of the file, in order, each cell read as above. A file without
  columns makes \<open>pd.read_csv\<close> raise \<open>EmptyDataError\<close>, so it returns no table; that is the
  file of an export without rows.
\<close>

definition pd_read_csv :: "csv_file \<Rightarrow> csv_row list \<Rightarrow> bool" where
  "pd_read_csv file annotation_table \<longleftrightarrow>
     columns (csv_table file) \<noteq> []
     \<and> list_all2
         (\<lambda>written row.
            map fst row = map fst (columns (csv_table file))
            \<and> list_all2 field_read written (map snd row))
         (rows_of (csv_table file)) annotation_table"


text \<open>The table read from the file written for collection \<open>C_5\<close>.\<close>

definition comma_rows_read :: "csv_row list" where
  "comma_rows_read =
     [[(''id'', Str ''CATMA_9''), (''annotation_collection'', Str ''Plot annotations''),
       (''text'', Str ''sea''), (''tag'', Str ''Plot''), (''property'', Str ''mood''),
       (''values'', Str ''sad, calm'')]]"

text \<open>
  A collection \<open>C_6\<close> with one annotation whose property value is the string \<open>NA\<close>, and the
  table read from the file written for it.
\<close>

definition marker_annotations :: "annotation list" where
  "marker_annotations =
     [\<lparr>uuid = ''CATMA_6'', author = ''ann'', tag = Tag ''Plot'' ''/Plot'' None,
       properties = [(''mood'', [''NA''])], pretext = [], annotation_text = ''sea'',
       posttext = [], start_point = 0, end_point = 3, date = ''2024-01-05''\<rparr>]"

definition marker_storage :: storage where
  "marker_storage =
     \<lparr>header_json = [''CATMA_P/collections/C_6/header.json'' \<mapsto> example_header],
      annotation_pages = [''CATMA_P/collections/C_6/annotations/'' \<mapsto> marker_annotations],
      document_title = (\<lambda>d. ''Novel'')\<rparr>"

definition marker_rows_read :: "csv_row list" where
  "marker_rows_read =
     [[(''id'', Str ''CATMA_6''), (''annotation_collection'', Str ''Plot annotations''),
       (''text'', Str ''sea''), (''tag'', Str ''Plot''), (''property'', Str ''mood''),
       (''values'', NaN)]]"

section \<open>Proofs: schema normalization\<close>

lemma update_present:
  "k \<in> fst ` set al \<Longrightarrow> distinct (map fst al) \<Longrightarrow>
   AList.update k v al = map (\<lambda>p. if fst p = k then (k, v) else p) al"
proof (induction al)
  case Nil
  then show ?case by simp
next
  case (Cons p al)
  show ?case
  proof (cases "fst p = k")
    case True
    with Cons.prems have "k \<notin> fst ` set al" by auto
    then have "map (\<lambda>p. if fst p = k then (k, v) else p) al = al"
      by (induction al) auto
    with True show ?thesis by (cases p) simp
  next
    case False
    with Cons show ?thesis by (cases p) auto
  qed
qed

lemma fold_add_key:
  "distinct (map fst ps) \<Longrightarrow> distinct (map fst pd) \<Longrightarrow>
   fold (add_key i) ps pd =
     map (\<lambda>pl. case map_of ps (fst pl) of None \<Rightarrow> pl | Some v \<Rightarrow> (fst pl, snd pl @ [v])) pd
     @ map (\<lambda>kv. (fst kv, replicate i [''nan''] @ [snd kv]))
         (filter (\<lambda>kv. fst kv \<notin> fst ` set pd) ps)"
proof (induction ps arbitrary: pd)
  case Nil
  then show ?case by (simp add: map_idI)
next
  case (Cons kv ps)
  obtain k v where kv: "kv = (k, v)" by (cases kv)
  from Cons.prems kv have fresh: "k \<notin> fst ` set ps" and dps: "distinct (map fst ps)"
    by auto
  have nops: "map_of ps k = None"
    using fresh by (simp add: map_of_eq_None_iff)
  show ?case
  proof (cases "map_of pd k")
    case None
    then have notin: "k \<notin> fst ` set pd" by (simp add: map_of_eq_None_iff)
    let ?pd1 = "pd @ [(k, replicate i [''nan''] @ [v])]"
    have step: "add_key i kv pd = ?pd1" using None kv by (simp add: add_key_def)
    have d1: "distinct (map fst ?pd1)" using Cons.prems(2) notin by auto
    have f1: "filter (\<lambda>kv. fst kv \<notin> fst ` set ?pd1) ps = filter (\<lambda>kv. fst kv \<notin> fst ` set pd) ps"
      using fresh by (intro filter_cong) auto
    have m1: "map (\<lambda>pl. case map_of ps (fst pl) of None \<Rightarrow> pl | Some v \<Rightarrow> (fst pl, snd pl @ [v])) pd
            = map (\<lambda>pl. case map_of (kv # ps) (fst pl) of None \<Rightarrow> pl | Some v \<Rightarrow> (fst pl, snd pl @ [v])) pd"
      using notin kv by (intro map_cong) auto
    show ?thesis
      using Cons.IH[OF dps d1] step f1 m1 notin nops kv by simp
  next
    case (Some l)
    then have isin: "k \<in> fst ` set pd" by (metis map_of_eq_None_iff option.distinct(1))
    let ?pd1 = "AList.update k (l @ [v]) pd"
    have step: "add_key i kv pd = ?pd1" using Some kv by (simp add: add_key_def)
    have d1: "distinct (map fst ?pd1)" using Cons.prems(2) by (simp add: distinct_update)
    have up: "?pd1 = map (\<lambda>p. if fst p = k then (k, l @ [v]) else p) pd"
      using update_present[OF isin Cons.prems(2)] .
    have "map fst ?pd1 = map fst pd"
      using isin by (simp add: update_keys)
    then have keys1: "fst ` set ?pd1 = fst ` set pd"
      by (metis set_map)
    have m1: "map (\<lambda>pl. case map_of ps (fst pl) of None \<Rightarrow> pl | Some v \<Rightarrow> (fst pl, snd pl @ [v])) ?pd1
            = map (\<lambda>pl. case map_of (kv # ps) (fst pl) of None \<Rightarrow> pl | Some v \<Rightarrow> (fst pl, snd pl @ [v])) pd"
      unfolding up map_map
    proof (intro map_cong refl)
      fix pl assume pl: "pl \<in> set pd"
      show "((\<lambda>pl. case map_of ps (fst pl) of None \<Rightarrow> pl | Some v \<Rightarrow> (fst pl, snd pl @ [v])) \<circ>
             (\<lambda>p. if fst p = k then (k, l @ [v]) else p)) pl
          = (case map_of (kv # ps) (fst pl) of None \<Rightarrow> pl | Some v \<Rightarrow> (fst pl, snd pl @ [v]))"
      proof (cases "fst pl = k")
        case True
        with pl Some Cons.prems(2) have "snd pl = l"
          by (metis map_of_is_SomeI option.inject prod.collapse)
        with True nops kv show ?thesis by simp
      next
        case False
        with kv show ?thesis by simp
      qed
    qed
    show ?thesis
      using Cons.IH[OF dps d1] step keys1 m1 isin kv by simp
  qed
qed

lemma value_of_absent: "k \<notin> fst ` set item \<Longrightarrow> value_of k item = [''nan'']"
proof -
  assume "k \<notin> fst ` set item"
  then have "map_of item k = None" by (simp add: map_of_eq_None_iff)
  then show ?thesis by (simp add: value_of_def)
qed

lemma value_of_present:
  "(k, v) \<in> set item \<Longrightarrow> distinct (map fst item) \<Longrightarrow> value_of k item = v"
  by (simp add: value_of_def)

lemma map_fst_property_table [simp]: "map fst (property_table keys items) = keys"
  by (simp add: property_table_def comp_def)

lemma item_step:
  assumes dk: "distinct keys" and di: "distinct (map fst item)"
    and cov: "\<forall>it\<in>set prev. fst ` set it \<subseteq> set keys"
  shows "pad_missing item (fold (add_key (length prev)) item (property_table keys prev))
       = property_table (keys @ filter (\<lambda>k. k \<notin> set keys) (map fst item)) (prev @ [item])"
proof -
  let ?pd = "property_table keys prev"
  let ?pad = "\<lambda>pl. if map_of item (fst pl) = None then (fst pl, snd pl @ [[''nan'']]) else pl"
  let ?F = "\<lambda>pl. case map_of item (fst pl) of None \<Rightarrow> pl | Some v \<Rightarrow> (fst pl, snd pl @ [v])"
  let ?G = "\<lambda>kv. (fst kv, replicate (length prev) [''nan''] @ [snd kv])"
  let ?h = "\<lambda>k. (k, map (value_of k) (prev @ [item]))"
  have dpd: "distinct (map fst ?pd)" using dk by simp
  have keyset: "fst ` set ?pd = set keys"
    by (metis map_fst_property_table set_map)
  have A: "map ?pad (map ?F ?pd) = map ?h keys"
    unfolding property_table_def map_map
    by (intro map_cong refl) (auto simp: value_of_def split: option.splits)
  have B: "map ?pad (map ?G (filter (\<lambda>kv. fst kv \<notin> set keys) item))
         = map ?h (filter (\<lambda>k. k \<notin> set keys) (map fst item))"
  proof -
    have "map ?pad (map ?G (filter (\<lambda>kv. fst kv \<notin> set keys) item))
        = map (?h \<circ> fst) (filter (\<lambda>kv. fst kv \<notin> set keys) item)"
      unfolding map_map
    proof (intro map_cong refl)
      fix kv assume "kv \<in> set (filter (\<lambda>kv. fst kv \<notin> set keys) item)"
      then have mem: "kv \<in> set item" and new: "fst kv \<notin> set keys" by auto
      from mem di have here: "map_of item (fst kv) = Some (snd kv)" by simp
      have "map (value_of (fst kv)) prev = replicate (length prev) [''nan'']"
      proof -
        have "\<forall>it\<in>set prev. value_of (fst kv) it = [''nan'']"
          using cov new by (auto intro!: value_of_absent)
        then show ?thesis by (simp add: map_replicate_const[symmetric] cong: map_cong)
      qed
      with here show "(?pad \<circ> ?G) kv = (?h \<circ> fst) kv"
        by (simp add: value_of_def)
    qed
    also have "\<dots> = map ?h (filter (\<lambda>k. k \<notin> set keys) (map fst item))"
      by (simp add: filter_map comp_def)
    finally show ?thesis .
  qed
  show ?thesis
    unfolding fold_add_key[OF di dpd] keyset pad_missing_def map_append A B
    by (simp add: property_table_def)
qed

lemma properties_loop_table:
  "distinct keys \<Longrightarrow> \<forall>it\<in>set items. distinct (map fst it) \<Longrightarrow>
   \<forall>it\<in>set prev. fst ` set it \<subseteq> set keys \<Longrightarrow>
   properties_loop (length prev) items (property_table keys prev)
     = property_table (seen_keys keys items) (prev @ items)"
proof (induction items arbitrary: keys prev)
  case Nil
  then show ?case by simp
next
  case (Cons item items)
  let ?keys' = "keys @ filter (\<lambda>k. k \<notin> set keys) (map fst item)"
  have di: "distinct (map fst item)" using Cons.prems(2) by simp
  have dk': "distinct ?keys'" using Cons.prems(1) di by auto
  have cov': "\<forall>it\<in>set (prev @ [item]). fst ` set it \<subseteq> set ?keys'"
    using Cons.prems(3) by auto
  have rest: "\<forall>it\<in>set items. distinct (map fst it)" using Cons.prems(2) by simp
  have "properties_loop (length prev) (item # items) (property_table keys prev)
      = properties_loop (length (prev @ [item])) items (property_table ?keys' (prev @ [item]))"
    using item_step[OF Cons.prems(1) di Cons.prems(3)] by simp
  also have "\<dots> = property_table (seen_keys ?keys' items) ((prev @ [item]) @ items)"
    by (rule Cons.IH[OF dk' rest cov'])
  finally show ?case by simp
qed

lemma properties_loop_all:
  assumes "\<forall>it\<in>set items. distinct (map fst it)"
  shows "properties_loop 0 items [] = property_table (seen_keys [] items) items"
  using properties_loop_table[of "[]" items "[]"] assms by (simp add: property_table_def)

lemma distinct_seen_keys:
  "distinct keys \<Longrightarrow> \<forall>it\<in>set items. distinct (map fst it) \<Longrightarrow> distinct (seen_keys keys items)"
proof (induction items arbitrary: keys)
  case Nil
  then show ?case by simp
next
  case (Cons item items)
  have "distinct (keys @ filter (\<lambda>k. k \<notin> set keys) (map fst item))"
    using Cons.prems by auto
  then show ?case using Cons by simp
qed

lemma set_seen_keys:
  "set (seen_keys keys items) = set keys \<union> (\<Union>it\<in>set items. fst ` set it)"
  by (induction items arbitrary: keys) auto

lemma update_fresh: "c \<notin> fst ` set al \<Longrightarrow> AList.update c v al = al @ [(c, v)]"
  by (induction al) auto

lemma assign_columns_fresh:
  "\<forall>pl\<in>set pc. length (snd pl) = nrows frame \<Longrightarrow> distinct (map fst pc) \<Longrightarrow>
   \<forall>pl\<in>set pc. ''prop:'' @ fst pl \<notin> fst ` set (columns frame) \<Longrightarrow>
   assign_columns pc frame =
     Inr (frame\<lparr>columns := columns frame @ map (\<lambda>pl. (''prop:'' @ fst pl, map Vals (snd pl))) pc\<rparr>)"
proof (induction pc arbitrary: frame)
  case Nil
  then show ?case by simp
next
  case (Cons pl pc)
  let ?frame' = "frame\<lparr>columns := columns frame @ [(''prop:'' @ fst pl, map Vals (snd pl))]\<rparr>"
  have s: "set_column frame (''prop:'' @ fst pl) (map Vals (snd pl)) = Inr ?frame'"
    using Cons.prems by (simp add: set_column_def update_fresh)
  have "assign_columns pc ?frame' =
     Inr (?frame'\<lparr>columns := columns ?frame' @ map (\<lambda>pl. (''prop:'' @ fst pl, map Vals (snd pl))) pc\<rparr>)"
  proof (intro Cons.IH)
    show "\<forall>pl\<in>set pc. length (snd pl) = nrows ?frame'" using Cons.prems(1) by simp
    show "distinct (map fst pc)" using Cons.prems(2) by simp
    show "\<forall>q\<in>set pc. ''prop:'' @ fst q \<notin> fst ` set (columns ?frame')"
    proof
      fix q assume q: "q \<in> set pc"
      then have "fst q \<in> fst ` set pc" by simp
      moreover have "fst pl \<notin> fst ` set pc" using Cons.prems(2) by simp
      ultimately have "fst q \<noteq> fst pl" by metis
      moreover have "''prop:'' @ fst q \<notin> fst ` set (columns frame)" using Cons.prems(3) q by simp
      ultimately show "''prop:'' @ fst q \<notin> fst ` set (columns ?frame')" by simp
    qed
  qed
  with s show ?case by simp
qed

lemma those_map_Some: "those (map (\<lambda>x. Some (f x)) xs) = Some (map f xs)"
  by (induction xs) auto

lemma base_frame:
  "DataFrame_rows (map (row_of t n) anns) df_columns =
     \<lparr>nrows = length anns,
      columns =
        [(''document'', map (\<lambda>a. Str t) anns),
         (''annotation collection'', map (\<lambda>a. Str n) anns),
         (''annotator'', map (\<lambda>a. Str (author a)) anns),
         (''tag'', map (\<lambda>a. Str (name (tag a))) anns),
         (''tag_path'', map (\<lambda>a. Str (full_path (tag a))) anns),
         (''properties'', map (\<lambda>a. Dict (properties a)) anns),
         (''left_context'', map (\<lambda>a. Str (pretext a)) anns),
         (''annotation'', map (\<lambda>a. Str (annotation_text a)) anns),
         (''right_context'', map (\<lambda>a. Str (posttext a)) anns),
         (''start_point'', map (\<lambda>a. Num (start_point a)) anns),
         (''end_point'', map (\<lambda>a. Num (end_point a)) anns),
         (''date'', map (\<lambda>a. Str (date a)) anns)]\<rparr>"
  by (simp add: DataFrame_rows_def df_columns_def enumerate_eq_zip upt_rec[of 0] upt_rec[of "Suc _"] row_of_def comp_def)

lemma split_frame:
  assumes wf: "\<forall>a\<in>set anns. distinct (map fst (properties a))"
  shows "split_property_dict_to_column (DataFrame_rows (map (row_of t n) anns) df_columns) =
     Inr \<lparr>nrows = length anns,
      columns =
        [(''document'', map (\<lambda>a. Str t) anns),
         (''annotation collection'', map (\<lambda>a. Str n) anns),
         (''annotator'', map (\<lambda>a. Str (author a)) anns),
         (''tag'', map (\<lambda>a. Str (name (tag a))) anns),
         (''tag_path'', map (\<lambda>a. Str (full_path (tag a))) anns),
         (''left_context'', map (\<lambda>a. Str (pretext a)) anns),
         (''annotation'', map (\<lambda>a. Str (annotation_text a)) anns),
         (''right_context'', map (\<lambda>a. Str (posttext a)) anns),
         (''start_point'', map (\<lambda>a. Num (start_point a)) anns),
         (''end_point'', map (\<lambda>a. Num (end_point a)) anns),
         (''date'', map (\<lambda>a. Str (date a)) anns)] @ property_part anns\<rparr>"
proof -
  let ?base = "DataFrame_rows (map (row_of t n) anns) df_columns"
  let ?items = "map properties anns"
  let ?pc = "property_table (seen_keys [] ?items) ?items"
  have wf': "\<forall>it\<in>set ?items. distinct (map fst it)" using wf by simp
  have col: "column ?base ''properties'' = Some (map (\<lambda>a. Dict (properties a)) anns)"
    by (simp add: base_frame column_def)
  have items: "those (map (dict_of_cell \<circ> (\<lambda>a. Dict (properties a))) anns) = Some ?items"
    using those_map_Some[of properties anns] by (simp add: dict_of_cell_def comp_def)
  have loop: "properties_loop 0 ?items [] = ?pc"
    by (rule properties_loop_all[OF wf'])
  have assign: "assign_columns ?pc ?base =
      Inr (?base\<lparr>columns := columns ?base @ map (\<lambda>pl. (''prop:'' @ fst pl, map Vals (snd pl))) ?pc\<rparr>)"
  proof (rule assign_columns_fresh)
    show "\<forall>pl\<in>set ?pc. length (snd pl) = nrows ?base"
      by (auto simp: property_table_def base_frame)
    show "distinct (map fst ?pc)"
      using distinct_seen_keys[OF _ wf'] by simp
    show "\<forall>pl\<in>set ?pc. ''prop:'' @ fst pl \<notin> fst ` set (columns ?base)"
      by (simp add: base_frame)
  qed
  have pp: "map (\<lambda>pl. (''prop:'' @ fst pl, map Vals (snd pl))) ?pc = property_part anns"
    by (simp add: property_part_def property_table_def comp_def)
  show ?thesis
  proof -
    have "split_property_dict_to_column ?base =
        drop_column (?base\<lparr>columns := columns ?base @ property_part anns\<rparr>) ''properties''"
      by (simp only: split_property_dict_to_column_def col option.case map_map items loop assign
            sum.case pp)
    moreover have "filter (\<lambda>kv. fst kv \<noteq> ''properties'') (property_part anns) = property_part anns"
      by (simp add: property_part_def filter_map comp_def)
    ultimately show ?thesis by (simp add: base_frame drop_column_def)
  qed
qed

lemma those_clean: "those (map (clean_cell \<circ> (\<lambda>a. Str (f a))) anns)
    = Some (map (\<lambda>a. Str (clean_text_in_ac_df (f a))) anns)"
  using those_map_Some[of "\<lambda>a. Str (clean_text_in_ac_df (f a))" anns]
  by (simp add: clean_cell_def comp_def)

lemma ac_to_df_frame:
  assumes wf: "\<forall>a\<in>set anns. distinct (map fst (properties a))"
  shows "ac_to_df anns t n =
     Inr \<lparr>nrows = length anns, columns = fixed_part anns t n @ property_part anns\<rparr>"
  unfolding ac_to_df_def split_frame[OF wf]
  by (simp add: apply_clean_def column_def those_clean set_column_def fixed_part_def)

lemma map_of_prefixed:
  "map_of (map (\<lambda>k. (''prop:'' @ k, f k)) ks) (''prop:'' @ k) = (if k \<in> set ks then Some (f k) else None)"
  by (induction ks) auto

lemma column_property:
  "column \<lparr>nrows = m, columns = fixed_part anns t n @ property_part anns\<rparr> (''prop:'' @ k) =
     (if k \<in> set (seen_keys [] (map properties anns))
      then Some (map (\<lambda>a. Vals (value_of k (properties a))) anns) else None)"
  using map_of_prefixed[of "\<lambda>k. map (\<lambda>a. Vals (value_of k (properties a))) anns"
      "seen_keys [] (map properties anns)" k]
  by (simp add: column_def fixed_part_def property_part_def)

text \<open>
  C1: for every sequence of annotations (property dicts have distinct keys), \<open>ac_to_df\<close>
  returns a table with one row per annotation; every column, and so every \<open>prop:\<close>
  column, holds exactly one cell per annotation; the \<open>prop:\<close> columns are exactly the
  property names met in the annotations; row \<open>i\<close> of a property column is the value
  list of annotation \<open>i\<close>, or \<open>['nan']\<close> when that annotation lacks the property;
  and the fixed columns list the annotations in the same order.
\<close>

theorem ac_to_df_columns_aligned:
  assumes wf: "\<forall>a\<in>set anns. distinct (map fst (properties a))"
  shows "\<exists>frame. ac_to_df anns title ac_name = Inr frame
     \<and> nrows frame = length anns
     \<and> (\<forall>cv\<in>set (columns frame). length (snd cv) = length anns)
     \<and> (\<forall>k. (column frame (''prop:'' @ k) \<noteq> None) = (\<exists>a\<in>set anns. k \<in> fst ` set (properties a)))
     \<and> (\<forall>k vs. column frame (''prop:'' @ k) = Some vs \<longrightarrow>
           vs = map (\<lambda>a. Vals (case map_of (properties a) k of None \<Rightarrow> [''nan''] | Some v \<Rightarrow> v))
                  anns)
     \<and> column frame ''document'' = Some (map (\<lambda>a. Str title) anns)
     \<and> column frame ''annotation collection'' = Some (map (\<lambda>a. Str ac_name) anns)
     \<and> column frame ''annotator'' = Some (map (\<lambda>a. Str (author a)) anns)
     \<and> column frame ''tag'' = Some (map (\<lambda>a. Str (name (tag a))) anns)
     \<and> column frame ''tag_path'' = Some (map (\<lambda>a. Str (full_path (tag a))) anns)
     \<and> column frame ''left_context'' = Some (map (\<lambda>a. Str (clean_text_in_ac_df (pretext a))) anns)
     \<and> column frame ''annotation'' = Some (map (\<lambda>a. Str (clean_text_in_ac_df (annotation_text a))) anns)
     \<and> column frame ''right_context'' = Some (map (\<lambda>a. Str (clean_text_in_ac_df (posttext a))) anns)
     \<and> column frame ''start_point'' = Some (map (\<lambda>a. Num (start_point a)) anns)
     \<and> column frame ''end_point'' = Some (map (\<lambda>a. Num (end_point a)) anns)
     \<and> column frame ''date'' = Some (map (\<lambda>a. Str (date a)) anns)"
proof -
  let ?frame = "\<lparr>nrows = length anns,
              columns = fixed_part anns title ac_name @ property_part anns\<rparr>"
  have run: "ac_to_df anns title ac_name = Inr ?frame"
    by (rule ac_to_df_frame[OF wf])
  have len: "\<forall>cv\<in>set (columns ?frame). length (snd cv) = length anns"
    by (auto simp: fixed_part_def property_part_def)
  have keys: "\<forall>k. (column ?frame (''prop:'' @ k) \<noteq> None) = (\<exists>a\<in>set anns. k \<in> fst ` set (properties a))"
    unfolding column_property by (simp add: set_seen_keys)
  have vals: "\<forall>k vs. column ?frame (''prop:'' @ k) = Some vs \<longrightarrow>
           vs = map (\<lambda>a. Vals (case map_of (properties a) k of None \<Rightarrow> [''nan''] | Some v \<Rightarrow> v))
                  anns"
    unfolding column_property by (auto simp: value_of_def split: if_splits)
  have fixed: "column ?frame ''document'' = Some (map (\<lambda>a. Str title) anns)"
    "column ?frame ''annotation collection'' = Some (map (\<lambda>a. Str ac_name) anns)"
    "column ?frame ''annotator'' = Some (map (\<lambda>a. Str (author a)) anns)"
    "column ?frame ''tag'' = Some (map (\<lambda>a. Str (name (tag a))) anns)"
    "column ?frame ''tag_path'' = Some (map (\<lambda>a. Str (full_path (tag a))) anns)"
    "column ?frame ''left_context'' = Some (map (\<lambda>a. Str (clean_text_in_ac_df (pretext a))) anns)"
    "column ?frame ''annotation'' = Some (map (\<lambda>a. Str (clean_text_in_ac_df (annotation_text a))) anns)"
    "column ?frame ''right_context'' = Some (map (\<lambda>a. Str (clean_text_in_ac_df (posttext a))) anns)"
    "column ?frame ''start_point'' = Some (map (\<lambda>a. Num (start_point a)) anns)"
    "column ?frame ''end_point'' = Some (map (\<lambda>a. Num (end_point a)) anns)"
    "column ?frame ''date'' = Some (map (\<lambda>a. Str (date a)) anns)"
    by (simp_all add: column_def fixed_part_def)
  show ?thesis
    apply (rule exI[of _ ?frame])
    apply (intro conjI)
    apply (rule run)
    apply simp
    apply (rule len)
    apply (rule keys)
    apply (rule vals)
    apply (rule fixed)+
    done
qed

text \<open>The theorem at the two example annotations.\<close>

theorem ac_to_df_columns_aligned_witness:
  "list_all (\<lambda>a. distinct (map fst (properties a))) example_annotations
   \<and> (\<exists>frame. ac_to_df example_annotations ''Novel'' ''Plot annotations'' = Inr frame
         \<and> nrows frame = 2
         \<and> column frame ''prop:mood'' = Some [Vals [''sad'', ''calm''], Vals [''nan'']]
         \<and> column frame ''tag'' = Some [Str ''Hero'', Str ''Setting''])"
proof -
  have h: "\<forall>a\<in>set example_annotations. distinct (map fst (properties a))"
    by (simp add: example_annotations_def)
  from ac_to_df_columns_aligned[OF h, of "''Novel''" "''Plot annotations''"]
  obtain frame where run: "ac_to_df example_annotations ''Novel'' ''Plot annotations'' = Inr frame"
    and n: "nrows frame = length example_annotations"
    and keys: "\<forall>k. (column frame (''prop:'' @ k) \<noteq> None) = (\<exists>a\<in>set example_annotations. k \<in> fst ` set (properties a))"
    and vals: "\<forall>k vs. column frame (''prop:'' @ k) = Some vs \<longrightarrow>
           vs = map (\<lambda>a. Vals (case map_of (properties a) k of None \<Rightarrow> [''nan''] | Some v \<Rightarrow> v))
                  example_annotations"
    and tg: "column frame ''tag'' = Some (map (\<lambda>a. Str (name (tag a))) example_annotations)"
    by blast
  from keys[rule_format, of "''mood''"] have "column frame (''prop:'' @ ''mood'') \<noteq> None"
    by (simp add: example_annotations_def)
  then obtain vs where vs: "column frame (''prop:'' @ ''mood'') = Some vs" by blast
  from vals[rule_format, OF vs] have "vs = [Vals [''sad'', ''calm''], Vals [''nan'']]"
    by (simp add: example_annotations_def)
  with vs have "column frame ''prop:mood'' = Some [Vals [''sad'', ''calm''], Vals [''nan'']]" by simp
  moreover from tg have "column frame ''tag'' = Some [Str ''Hero'', Str ''Setting'']"
    by (simp add: example_annotations_def)
  moreover from n have "nrows frame = 2" by (simp add: example_annotations_def)
  moreover have "list_all (\<lambda>a. distinct (map fst (properties a))) example_annotations"
    using h by (simp add: list_all_iff)
  ultimately show ?thesis using run by blast
qed

section \<open>Proofs: token ranking\<close>

lemma filter_remove1_dropped: "\<not> P x \<Longrightarrow> filter P (remove1 x xs) = filter P xs"
  by (induction xs) auto

lemma remove_empty_tokens_filter: "remove_empty_tokens token_list = filter (\<lambda>t. t \<noteq> []) token_list"
proof (induction token_list rule: remove_empty_tokens.induct)
  case (1 token_list)
  show ?case
  proof (cases "[] \<in> set token_list")
    case True
    then have "remove_empty_tokens token_list = remove_empty_tokens (remove1 [] token_list)"
      by (simp add: remove_empty_tokens.simps[of token_list])
    also have "\<dots> = filter (\<lambda>t. t \<noteq> []) (remove1 [] token_list)"
      using "1.IH"[OF True] .
    also have "\<dots> = filter (\<lambda>t. t \<noteq> []) token_list"
      by (rule filter_remove1_dropped) simp
    finally show ?thesis .
  next
    case False
    then have "filter (\<lambda>t. t \<noteq> []) token_list = token_list"
      by (intro filter_True) auto
    with False show ?thesis
      by (simp add: remove_empty_tokens.simps[of token_list])
  qed
qed

lemma fold_extend: "fold (\<lambda>x acc. acc @ f x) xs acc = acc @ concat (map f xs)"
  by (induction xs arbitrary: acc) auto

lemma drop_stopwords_filter:
  "drop_stopwords stopwords toks =
     filter (\<lambda>t. case stopwords of None \<Rightarrow> True | Some sw \<Rightarrow> t \<notin> set sw) toks"
  by (auto simp: drop_stopwords_def split: option.splits)

lemma tokens_refine:
  "drop_stopwords stopwords
     (remove_empty_tokens
       (fold (\<lambda>str_item token_list. token_list @ split_char CHR '' '' (remove_punctuation str_item))
          annotation_col []))
   = kept_tokens annotation_col stopwords"
  by (simp add: drop_stopwords_filter remove_empty_tokens_filter fold_extend kept_tokens_def
      conj_commute)

lemma distinct_first_occurrences: "distinct (first_occurrences xs)"
  by (induction xs) auto


lemma fold_count_token:
  "distinct (map fst acc) \<Longrightarrow>
   fold count_token toks acc =
     map (\<lambda>kv. (fst kv, snd kv + count_list toks (fst kv))) acc
     @ map (\<lambda>t. (t, count_list toks t)) (filter (\<lambda>t. t \<notin> fst ` set acc) (first_occurrences toks))"
proof (induction toks arbitrary: acc)
  case Nil
  then show ?case by (simp add: map_idI)
next
  case (Cons x toks)
  show ?case
  proof (cases "map_of acc x")
    case None
    then have notin: "x \<notin> fst ` set acc" by (simp add: map_of_eq_None_iff)
    let ?acc1 = "acc @ [(x, 1)]"
    have step: "count_token x acc = ?acc1" using None by (simp add: count_token_def)
    have d1: "distinct (map fst ?acc1)" using Cons.prems notin by auto
    have m1: "map (\<lambda>kv. (fst kv, snd kv + count_list toks (fst kv))) acc
            = map (\<lambda>kv. (fst kv, snd kv + count_list (x # toks) (fst kv))) acc"
      using notin by (intro map_cong) auto
    have f1: "filter (\<lambda>t. t \<notin> fst ` set ?acc1) (first_occurrences toks)
            = filter (\<lambda>t. t \<notin> fst ` set acc) (filter (\<lambda>y. y \<noteq> x) (first_occurrences toks))"
      by (auto intro: filter_cong)
    have m2: "map (\<lambda>t. (t, count_list toks t)) (filter (\<lambda>t. t \<notin> fst ` set ?acc1) (first_occurrences toks))
            = map (\<lambda>t. (t, count_list (x # toks) t)) (filter (\<lambda>t. t \<notin> fst ` set ?acc1) (first_occurrences toks))"
      by (intro map_cong) auto
    show ?thesis
      using Cons.IH[OF d1] step m1 m2 f1 notin by simp
  next
    case (Some c)
    then have isin: "x \<in> fst ` set acc" by (metis map_of_eq_None_iff option.distinct(1))
    let ?acc1 = "AList.update x (c + 1) acc"
    have step: "count_token x acc = ?acc1" using Some by (simp add: count_token_def)
    have d1: "distinct (map fst ?acc1)" using Cons.prems by (simp add: distinct_update)
    have up: "?acc1 = map (\<lambda>p. if fst p = x then (x, c + 1) else p) acc"
      using update_present[OF isin Cons.prems] .
    have "map fst ?acc1 = map fst acc" using isin by (simp add: update_keys)
    then have keys1: "fst ` set ?acc1 = fst ` set acc" by (metis set_map)
    have m1: "map (\<lambda>kv. (fst kv, snd kv + count_list toks (fst kv))) ?acc1
            = map (\<lambda>kv. (fst kv, snd kv + count_list (x # toks) (fst kv))) acc"
      unfolding up map_map
    proof (intro map_cong refl)
      fix kv assume kv: "kv \<in> set acc"
      show "((\<lambda>kv. (fst kv, snd kv + count_list toks (fst kv))) \<circ>
             (\<lambda>p. if fst p = x then (x, c + 1) else p)) kv
          = (fst kv, snd kv + count_list (x # toks) (fst kv))"
      proof (cases "fst kv = x")
        case True
        with kv Some Cons.prems have "snd kv = c"
          by (metis map_of_is_SomeI option.inject prod.collapse)
        with True show ?thesis by simp
      next
        case False
        then show ?thesis by simp
      qed
    qed
    have f1: "filter (\<lambda>t. t \<notin> fst ` set acc) (filter (\<lambda>y. y \<noteq> x) (first_occurrences toks))
            = filter (\<lambda>t. t \<notin> fst ` set acc) (first_occurrences toks)"
      using isin by (auto intro: filter_cong)
    have m2: "map (\<lambda>t. (t, count_list toks t)) (filter (\<lambda>t. t \<notin> fst ` set acc) (first_occurrences toks))
            = map (\<lambda>t. (t, count_list (x # toks) t)) (filter (\<lambda>t. t \<notin> fst ` set acc) (first_occurrences toks))"
      using isin by (intro map_cong) auto
    show ?thesis
      using Cons.IH[OF d1] step keys1 m1 m2 f1 isin by simp
  qed
qed

lemma Counter_frequencies: "Counter toks = token_frequencies toks"
  using fold_count_token[of "[]" toks] by (simp add: Counter_def token_frequencies_def)

lemma sorted_falling:
  "sorted_wrt (\<lambda>p q. snd q \<le> snd p) (sort_key (\<lambda>kv. - int (snd kv)) (xs :: (string \<times> nat) list))"
proof -
  have "sorted (map (\<lambda>kv. - int (snd kv)) (sort_key (\<lambda>kv. - int (snd kv)) xs))"
    by (rule sorted_sort_key)
  then show ?thesis by (simp add: sorted_map)
qed

lemma ties_in_first_met_order:
  "filter (\<lambda>p. snd p = c) (sort_key (\<lambda>kv. - int (snd kv)) (xs :: (string \<times> nat) list))
   = filter (\<lambda>p. snd p = c) xs"
  using sort_key_stable[of "\<lambda>kv. - int (snd kv)" "- int c" xs] by simp

text \<open>
  C6, as amended: \<open>most_common_token\<close> returns the first \<open>ranking\<close> entries of a
  list \<open>ranked\<close> that holds every kept token once with its frequency (the tokens kept are
  those of the punctuation-free texts split on single spaces, without the empty ones and,
  when a stopword list is given, without the stopwords), in order of falling frequency,
  tokens of equal frequency in the order in which they are first met. For
  \<open>["a b b", "b c"]\<close> and \<open>ranking = 2\<close> it returns \<open>{"b": 3, "a": 1}\<close>: the token
  \<open>b\<close> occurs three times.
\<close>

theorem most_common_token_ranking:
  "(\<exists>ranked.
      most_common_token annotation_col stopwords ranking = take (nat ranking) ranked
      \<and> mset ranked = mset (token_frequencies (kept_tokens annotation_col stopwords))
      \<and> sorted_wrt (\<lambda>p q. snd q \<le> snd p) ranked
      \<and> (\<forall>c. filter (\<lambda>p. snd p = c) ranked
             = filter (\<lambda>p. snd p = c) (token_frequencies (kept_tokens annotation_col stopwords))))
   \<and> most_common_token [''a b b'', ''b c''] None 2 = [(''b'', 3), (''a'', 1)]"
proof
  let ?items = "token_frequencies (kept_tokens annotation_col stopwords)"
  let ?ranked = "sort_key (\<lambda>kv. - int (snd kv)) ?items"
  have run: "most_common_token annotation_col stopwords ranking = take (nat ranking) ?ranked"
    by (simp only: most_common_token_def tokens_refine Counter_frequencies most_common_def)
  have "mset ?ranked = mset ?items" by simp
  with run sorted_falling[of ?items] ties_in_first_met_order[of _ ?items]
  show "\<exists>ranked.
      most_common_token annotation_col stopwords ranking = take (nat ranking) ranked
      \<and> mset ranked = mset ?items
      \<and> sorted_wrt (\<lambda>p q. snd q \<le> snd p) ranked
      \<and> (\<forall>c. filter (\<lambda>p. snd p = c) ranked = filter (\<lambda>p. snd p = c) ?items)"
    by blast
next
  show "most_common_token [''a b b'', ''b c''] None 2 = [(''b'', 3), (''a'', 1)]"
    by code_simp
qed

text \<open>
  C6 as stated gives the frequency of \<open>b\<close> in \<open>["a b b", "b c"]\<close> as 2; the function
  does not return that dict.
\<close>

theorem most_common_token_example_counterexample:
  "most_common_token [''a b b'', ''b c''] None 2 \<noteq> [(''b'', 2), (''a'', 1)]"
  by code_simp

section \<open>Proofs: construction\<close>

text \<open>
  C9: when no \<open>header.json\<close> is at the expected path, the constructor fails with
  \<open>FileNotFoundError\<close> (the specification's NotFoundError); the message contains the
  collection's directory, the path at which the header was expected, and the hint to make
  sure that the CATMA project clone worked. The result is the error alone: nothing is
  constructed.
\<close>

theorem missing_header_raises:
  assumes "header_json st ((cp_uuid project @ ''/collections/'' @ u @ ''/'') @ ''header.json'') = None"
  shows "AnnotationCollection st u project =
           Inl (FileNotFoundError (not_found_message (cp_uuid project @ ''/collections/'' @ u @ ''/'')))
       \<and> sublist (cp_uuid project @ ''/collections/'' @ u @ ''/'')
             (not_found_message (cp_uuid project @ ''/collections/'' @ u @ ''/''))
       \<and> sublist ''Make sure the CATMA project clone worked properly''
             (not_found_message (cp_uuid project @ ''/collections/'' @ u @ ''/''))"
proof (intro conjI)
  let ?dir = "cp_uuid project @ ''/collections/'' @ u @ ''/''"
  show "AnnotationCollection st u project = Inl (FileNotFoundError (not_found_message ?dir))"
    using assms by (simp add: AnnotationCollection_def)
  show "sublist ?dir (not_found_message ?dir)"
    unfolding not_found_message_def by (rule sublist_appendI)
  have "not_found_message ?dir =
      (''The annotation collection at this path could not be found: '' @ ?dir @ [CHR 0x0A]
        @ ''                    --> '')
      @ ''Make sure the CATMA project clone worked properly'' @ ''.''"
    by (simp add: not_found_message_def)
  then show "sublist ''Make sure the CATMA project clone worked properly'' (not_found_message ?dir)"
    by (metis sublist_appendI)
qed

text \<open>The theorem at collection \<open>C_3\<close>, which has no header.\<close>

theorem missing_header_raises_witness:
  "header_json example_storage ((cp_uuid example_project @ ''/collections/'' @ ''C_3'' @ ''/'') @ ''header.json'') = None
   \<and> AnnotationCollection example_storage ''C_3'' example_project =
       Inl (FileNotFoundError
             (''The annotation collection at this path could not be found: CATMA_P/collections/C_3/''
              @ [CHR 0x0A]
              @ ''                    --> Make sure the CATMA project clone worked properly.''))"
proof -
  have h: "header_json example_storage
      ((cp_uuid example_project @ ''/collections/'' @ ''C_3'' @ ''/'') @ ''header.json'') = None"
    by (simp add: example_storage_def example_project_def)
  from missing_header_raises[OF h] h show ?thesis
    by (simp add: not_found_message_def example_project_def)
qed

text \<open>
  With a header and without an \<open>annotations/\<close> directory the constructor returns a
  collection without annotations whose table is \<open>pd.DataFrame(columns=df_columns)\<close>.
\<close>

lemma missing_annotations_directory:
  assumes "header_json st ((cp_uuid project @ ''/collections/'' @ u @ ''/'') @ ''header.json'') = Some h"
    and "annotation_pages st ((cp_uuid project @ ''/collections/'' @ u @ ''/'') @ ''annotations/'') = None"
  shows "\<exists>ac. AnnotationCollection st u project = Inr ac \<and> annotations ac = []
           \<and> df ac = DataFrame_columns df_columns"
  using assms by (simp add: AnnotationCollection_def)

text \<open>
  C4 at collection \<open>C_2\<close>, which has a header and no \<open>annotations/\<close> directory: the
  constructor does not raise, there are no annotations and no rows, and no \<open>prop:\<close>
  column; but the columns are the twelve names of \<open>df_columns\<close>, with the raw
  \<open>properties\<close> column that \<open>ac_to_df\<close> drops from every table it builds, also from the
  table of an empty list of annotations.
\<close>

theorem missing_annotations_directory_table:
  "\<exists>ac. AnnotationCollection example_storage ''C_2'' example_project = Inr ac
     \<and> annotations ac = []
     \<and> nrows (df ac) = 0
     \<and> filter (str_in ''prop:'') (map fst (columns (df ac))) = []
     \<and> map fst (columns (df ac)) =
          [''document'', ''annotation collection'', ''annotator'', ''tag'', ''tag_path'',
           ''properties'', ''left_context'', ''annotation'', ''right_context'', ''start_point'',
           ''end_point'', ''date'']
     \<and> (\<exists>d. ac_to_df [] (text_title ac) (collection_name ac) = Inr d
           \<and> nrows d = 0
           \<and> map fst (columns d) =
               [''document'', ''annotation collection'', ''annotator'', ''tag'', ''tag_path'',
                ''left_context'', ''annotation'', ''right_context'', ''start_point'',
                ''end_point'', ''date''])"
proof -
  have "case AnnotationCollection example_storage ''C_2'' example_project of
          Inl e \<Rightarrow> False
        | Inr ac \<Rightarrow>
            annotations ac = [] \<and> nrows (df ac) = 0
            \<and> filter (str_in ''prop:'') (map fst (columns (df ac))) = []
            \<and> map fst (columns (df ac)) =
                [''document'', ''annotation collection'', ''annotator'', ''tag'', ''tag_path'',
                 ''properties'', ''left_context'', ''annotation'', ''right_context'',
                 ''start_point'', ''end_point'', ''date'']
            \<and> (case ac_to_df [] (text_title ac) (collection_name ac) of
                  Inl e \<Rightarrow> False
                | Inr d \<Rightarrow>
                    nrows d = 0
                    \<and> map fst (columns d) =
                        [''document'', ''annotation collection'', ''annotator'', ''tag'',
                         ''tag_path'', ''left_context'', ''annotation'', ''right_context'',
                         ''start_point'', ''end_point'', ''date''])"
    by code_simp
  then show ?thesis by (auto split: sum.splits)
qed

section \<open>Proofs: get\_annotation\_by\_tag\<close>

lemma annotations_by_tag_result:
  "annotations_by_tag anns tag_name =
     (if \<exists>a\<in>set anns. name (tag a) \<noteq> tag_name \<and> parent (tag a) = None
      then Inl (AttributeError ''name'')
      else Inr (filter (\<lambda>a. name (tag a) = tag_name
                           \<or> map_option name (parent (tag a)) = Some tag_name) anns))"
  by (induction anns) (auto split: option.splits)

text \<open>
  C10, as amended: \<open>get_annotation_by_tag\<close> fails exactly when some annotation's tag has no
  parent and a name other than the given one; otherwise it returns, in order, the
  annotations whose tag has the given name or whose tag's parent has it. An annotation whose
  tag has the given name is a match whether or not the tag has a parent.
\<close>

theorem get_annotation_by_tag_result:
  "get_annotation_by_tag self tag_name =
     (if \<exists>a\<in>set (annotations self). name (tag a) \<noteq> tag_name \<and> parent (tag a) = None
      then Inl (AttributeError ''name'')
      else Inr (filter (\<lambda>a. name (tag a) = tag_name
                           \<or> map_option name (parent (tag a)) = Some tag_name)
                  (annotations self)))"
  unfolding get_annotation_by_tag_def by (rule annotations_by_tag_result)

text \<open>
  C10 as stated fails at collection \<open>C_4\<close>: its annotation's tag \<open>Plot\<close> has no parent, and
  asking for \<open>Plot\<close> returns the annotation instead of failing.
\<close>

theorem get_annotation_by_tag_counterexample:
  "\<exists>ac. AnnotationCollection example_storage ''C_4'' example_project = Inr ac
     \<and> list_ex (\<lambda>a. parent (tag a) = None) (annotations ac)
     \<and> get_annotation_by_tag ac ''Plot'' = Inr (annotations ac)"
proof -
  have "case AnnotationCollection example_storage ''C_4'' example_project of
          Inl e \<Rightarrow> False
        | Inr ac \<Rightarrow> list_ex (\<lambda>a. parent (tag a) = None) (annotations ac)
                    \<and> get_annotation_by_tag ac ''Plot'' = Inr (annotations ac)"
    by code_simp
  then show ?thesis by (auto split: sum.splits)
qed

section \<open>Proofs: filter\_by\_tag\_path\<close>

lemma match_here_literal: "CHR ''.'' \<notin> set pat \<Longrightarrow> match_here pat s = prefix pat s"
  by (induction pat s rule: match_here.induct) auto

lemma re_search_literal: "CHR ''.'' \<notin> set pat \<Longrightarrow> re_search pat s = str_in pat s"
  by (induction s) (auto simp: match_here_literal)

lemma str_in_sublist: "str_in sub s = sublist sub s"
  by (induction s) (auto simp: sublist_Cons_right)

text \<open>
  C3 at collection \<open>C_1\<close> and \<open>path_element = "."\<close>: no tag path contains a dot, so the
  rows with the literal substring are none; the function returns the whole table, because
  the dot is a regular expression that matches any character.
\<close>

theorem filter_by_tag_path_regex:
  "\<exists>ac. AnnotationCollection example_storage ''C_1'' example_project = Inr ac
     \<and> column (df ac) ''tag_path'' = Some [Str ''/Plot/Character/Hero'', Str ''/Plot/Setting'']
     \<and> \<not> str_in ''.'' ''/Plot/Character/Hero''
     \<and> \<not> str_in ''.'' ''/Plot/Setting''
     \<and> nrows (df ac) = 2
     \<and> filter_by_tag_path ac ''.'' = Some (Inr (df ac))"
proof -
  have "case AnnotationCollection example_storage ''C_1'' example_project of
          Inl e \<Rightarrow> False
        | Inr ac \<Rightarrow>
            column (df ac) ''tag_path'' = Some [Str ''/Plot/Character/Hero'', Str ''/Plot/Setting'']
            \<and> \<not> str_in ''.'' ''/Plot/Character/Hero''
            \<and> \<not> str_in ''.'' ''/Plot/Setting''
            \<and> nrows (df ac) = 2
            \<and> filter_by_tag_path ac ''.'' = Some (Inr (df ac))"
    by code_simp
  then show ?thesis by (auto split: sum.splits)
qed

section \<open>Proofs: duplicate\_by\_prop\<close>

lemma str_replace_absent:
  "old \<noteq> [] \<Longrightarrow> \<not> str_in old s \<Longrightarrow> str_replace old new s = s"
proof (induction old new s rule: str_replace.induct)
  case (1 old new s)
  show ?case
  proof (cases s)
    case Nil
    with "1.prems" show ?thesis by (simp add: str_replace.simps[of old new "[]"])
  next
    case (Cons c cs)
    with "1.prems" have np: "\<not> prefix old s" and rest: "\<not> str_in old (tl s)" by auto
    have ne: "s \<noteq> []" using Cons by simp
    have "str_replace old new (tl s) = tl s"
      using "1.IH"(2) "1.prems"(1) ne np rest by simp
    moreover have "str_replace old new s = hd s # str_replace old new (tl s)"
      using "1.prems"(1) ne np by (subst str_replace.simps) simp
    ultimately show ?thesis using ne by simp
  qed
qed

lemma str_replace_prefix:
  "\<not> str_in ''prop:'' k \<Longrightarrow> str_replace ''prop:'' [] (''prop:'' @ k) = k"
proof -
  assume absent: "\<not> str_in ''prop:'' k"
  have "str_replace ''prop:'' [] (''prop:'' @ k) = str_replace ''prop:'' [] k"
    by (subst str_replace.simps) simp
  also have "\<dots> = k"
    using absent by (intro str_replace_absent) simp_all
  finally show ?thesis .
qed

lemma strip_prefixes:
  "\<forall>k\<in>set ks. \<not> str_in ''prop:'' k \<Longrightarrow>
   map (str_replace ''prop:'' []) (map fst (map (\<lambda>k. (''prop:'' @ k, f k)) ks)) = ks"
proof (induction ks)
  case Nil
  then show ?case by simp
next
  case (Cons k ks)
  then have "str_replace ''prop:'' [] (''prop:'' @ k) = k"
    by (intro str_replace_prefix) simp
  moreover have "map (str_replace ''prop:'' []) (map fst (map (\<lambda>k. (''prop:'' @ k, f k)) ks)) = ks"
    using Cons by simp
  ultimately show ?case by (simp only: list.map fst_conv)
qed

lemma str_in_prefixed: "str_in ''prop:'' (''prop:'' @ k)"
  by (simp add: str_in_sublist)

lemma listed_property_names:
  assumes "\<forall>k\<in>set (seen_keys [] (map properties anns)). \<not> str_in ''prop:'' k"
  shows "map (str_replace ''prop:'' [])
           (filter (str_in ''prop:'') (map fst (fixed_part anns t n @ property_part anns)))
       = seen_keys [] (map properties anns)"
proof -
  have fixed: "filter (str_in ''prop:'') (map fst (fixed_part anns t n)) = []"
    by (simp add: fixed_part_def)
  have props: "filter (str_in ''prop:'') (map fst (property_part anns)) = map fst (property_part anns)"
    by (intro filter_True) (auto simp: property_part_def str_in_sublist)
  have "map (str_replace ''prop:'' []) (map fst (property_part anns)) = seen_keys [] (map properties anns)"
    unfolding property_part_def
    by (rule strip_prefixes[OF assms, of "\<lambda>k. map (\<lambda>a. Vals (value_of k (properties a))) anns"])
  with fixed props show ?thesis by simp
qed

text \<open>
  For a table built by \<open>ac_to_df\<close> from annotations none of whose property names contains
  \<open>prop:\<close>, a request for the column of a property that no annotation has raises the
  \<open>ValueError\<close> with exactly the property names of the collection.
\<close>

lemma duplicate_by_prop_unknown:
  assumes frame: "df self = \<lparr>nrows = length (annotations self),
                    columns = fixed_part (annotations self) t n @ property_part (annotations self)\<rparr>"
    and plain: "\<forall>k\<in>set (seen_keys [] (map properties (annotations self))). \<not> str_in ''prop:'' k"
    and unknown: "k \<notin> set (seen_keys [] (map properties (annotations self)))"
  shows "duplicate_by_prop self (''prop:'' @ k) =
     Inl (ValueError (''Given Property doesn'' @ [CHR 0x27] @ ''t exist. Choose one of these: '')
            (seen_keys [] (map properties (annotations self))))"
proof -
  have "''prop:'' @ k \<notin> fst ` set (fixed_part (annotations self) t n)"
    by (simp add: fixed_part_def)
  moreover have "''prop:'' @ k \<notin> fst ` set (property_part (annotations self))"
    using unknown by (auto simp: property_part_def)
  ultimately have "duplicate_rows (df self) (''prop:'' @ k) = Inl (KeyError (''prop:'' @ k))"
    unfolding frame by (simp add: duplicate_rows_def image_Un)
  moreover have "map (str_replace ''prop:'' []) (filter (str_in ''prop:'') (map fst (columns (df self))))
      = seen_keys [] (map properties (annotations self))"
    unfolding frame using listed_property_names[OF plain] by simp
  ultimately show ?thesis
    by (simp only: duplicate_by_prop_def sum.case pyerror.case)
qed

text \<open>
  C7 at collection \<open>C_4\<close>, whose only property is named \<open>prop:a\<close>: a request for the
  property column \<open>prop:zzz\<close>, which the table does not have, raises \<open>ValueError\<close> (the
  specification's InvalidPropertyError), and the list in its message is \<open>['a']\<close>, the name
  of no property of the collection: \<open>replace\<close> deletes every \<open>prop:\<close> of the column name
  \<open>prop:prop:a\<close>, not only the prefix. (When no property name contains \<open>prop:\<close> the list
  is exact: lemma \<open>duplicate_by_prop_unknown\<close>.)
\<close>

theorem duplicate_by_prop_message:
  "\<exists>ac. AnnotationCollection example_storage ''C_4'' example_project = Inr ac
     \<and> map (\<lambda>a. map fst (properties a)) (annotations ac) = [[''prop:a'']]
     \<and> map fst (columns (df ac)) =
         [''document'', ''annotation collection'', ''annotator'', ''tag'', ''tag_path'',
          ''left_context'', ''annotation'', ''right_context'', ''start_point'', ''end_point'',
          ''date'', ''prop:prop:a'']
     \<and> duplicate_by_prop ac ''prop:zzz'' =
         Inl (ValueError (''Given Property doesn'' @ [CHR 0x27] @ ''t exist. Choose one of these: '')
                [''a''])"
proof -
  have "case AnnotationCollection example_storage ''C_4'' example_project of
          Inl e \<Rightarrow> False
        | Inr ac \<Rightarrow>
            map (\<lambda>a. map fst (properties a)) (annotations ac) = [[''prop:a'']]
            \<and> map fst (columns (df ac)) =
                [''document'', ''annotation collection'', ''annotator'', ''tag'', ''tag_path'',
                 ''left_context'', ''annotation'', ''right_context'', ''start_point'',
                 ''end_point'', ''date'', ''prop:prop:a'']
            \<and> duplicate_by_prop ac ''prop:zzz'' =
                Inl (ValueError (''Given Property doesn'' @ [CHR 0x27] @ ''t exist. Choose one of these: '')
                       [''a''])"
    by code_simp
  then show ?thesis by (auto split: sum.splits)
qed

section \<open>Proofs: bulk-edit CSV\<close>

lemma try_row_KeyError: "try_row d r = Inl e \<Longrightarrow> \<exists>k. e = KeyError k"
  by (auto simp: try_row_def getitem_def split: sum.splits cell.splits option.splits)

lemma import_row_step:
  "import_row d r s =
     Inr (case row_call d r of
            Some call \<Rightarrow> s\<lparr>calls := calls s @ [call], annotation_counter := annotation_counter s + 1\<rparr>
          | None \<Rightarrow> s\<lparr>missed_annotation_counter := missed_annotation_counter s + 1\<rparr>)"
proof (cases "try_row d r")
  case (Inl e)
  then obtain k where "e = KeyError k" using try_row_KeyError by blast
  with Inl show ?thesis by (simp add: import_row_def row_call_def)
next
  case (Inr c)
  then show ?thesis by (cases c) (simp_all add: import_row_def row_call_def)
qed

lemma import_rows_result:
  "import_rows d rows s =
     Inr \<lparr>calls = calls s @ List.map_filter (row_call d) rows,
          annotation_counter =
            annotation_counter s + length (filter (\<lambda>r. row_call d r \<noteq> None) rows),
          missed_annotation_counter =
            missed_annotation_counter s + length (filter (\<lambda>r. row_call d r = None) rows)\<rparr>"
proof (induction rows arbitrary: s)
  case Nil
  show ?case by (cases s) (simp add: List.map_filter_simps)
next
  case (Cons r rows)
  show ?case
  proof (cases "row_call d r")
    case None
    then show ?thesis
      by (simp add: import_row_step Cons.IH List.map_filter_simps)
  next
    case (Some call)
    then show ?thesis
      by (simp add: import_row_step Cons.IH List.map_filter_simps)
  qed
qed

text \<open>Every row moves exactly one of the two counters, and the loop never raises.\<close>

lemma import_rows_counts:
  "\<exists>s. import_rows d rows \<lparr>calls = [], annotation_counter = 0, missed_annotation_counter = 0\<rparr> = Inr s
      \<and> annotation_counter s + missed_annotation_counter s = length rows
      \<and> length (calls s) = annotation_counter s"
proof -
  let ?s = "\<lparr>calls = List.map_filter (row_call d) rows,
             annotation_counter = length (filter (\<lambda>r. row_call d r \<noteq> None) rows),
             missed_annotation_counter = length (filter (\<lambda>r. row_call d r = None) rows)\<rparr>"
  have run: "import_rows d rows \<lparr>calls = [], annotation_counter = 0, missed_annotation_counter = 0\<rparr> = Inr ?s"
    by (simp add: import_rows_result)
  have total: "annotation_counter ?s + missed_annotation_counter ?s = length rows"
    using sum_length_filter_compl[of "\<lambda>r. row_call d r \<noteq> None" rows] by simp
  have made: "length (calls ?s) = annotation_counter ?s"
    by (simp add: List.map_filter_def)
  from run total made show ?thesis by blast
qed













lemma example_collection_constructed:
  "AnnotationCollection example_storage ''C_1'' example_project = Inr example_collection"
  by code_simp


text \<open>
  C5 at collection \<open>C_1\<close>: with \<open>only_missing_prop_values=False\<close> the rows have the
  columns in the order \<open>id; annotation_collection; text; tag; property; values\<close>, text
  before tag; with \<open>only_missing_prop_values=True\<close> they have the order
  \<open>id; annotation_collection; tag; text; property; values\<close>. The values field is the
  comma-joined list, or empty, and the separator is the semicolon.
\<close>

theorem write_annotation_csv_column_order:
  "\<exists>ac. AnnotationCollection example_storage ''C_1'' example_project = Inr ac
     \<and> map fst (columns (csv_table
           (write_annotation_csv ac (PyStr ''all'') ''all'' False ''PropertyAnnotationTable'')))
         = [''id'', ''annotation_collection'', ''text'', ''tag'', ''property'', ''values'']
     \<and> rows_of (csv_table
           (write_annotation_csv ac (PyStr ''all'') ''all'' False ''PropertyAnnotationTable''))
         = [[Str ''CATMA_1'', Str ''Plot annotations'', Str ''the knight'', Str ''Hero'',
             Str ''mood'', Str ''sad,calm''],
            [Str ''CATMA_1'', Str ''Plot annotations'', Str ''the knight'', Str ''Hero'',
             Str ''certainty'', Str []]]
     \<and> map fst (columns (csv_table
           (write_annotation_csv ac (PyStr ''all'') ''all'' True ''PropertyAnnotationTable'')))
         = [''id'', ''annotation_collection'', ''tag'', ''text'', ''property'', ''values'']
     \<and> rows_of (csv_table
           (write_annotation_csv ac (PyStr ''all'') ''all'' True ''PropertyAnnotationTable''))
         = [[Str ''CATMA_1'', Str ''Plot annotations'', Str ''Hero'', Str ''the knight'',
             Str ''certainty'', Str []]]
     \<and> csv_sep (write_annotation_csv ac (PyStr ''all'') ''all'' False ''PropertyAnnotationTable'')
         = CHR '';''"
proof -
  have "case AnnotationCollection example_storage ''C_1'' example_project of
          Inl e \<Rightarrow> False
        | Inr ac \<Rightarrow>
            map fst (columns (csv_table
                (write_annotation_csv ac (PyStr ''all'') ''all'' False ''PropertyAnnotationTable'')))
              = [''id'', ''annotation_collection'', ''text'', ''tag'', ''property'', ''values'']
            \<and> rows_of (csv_table
                (write_annotation_csv ac (PyStr ''all'') ''all'' False ''PropertyAnnotationTable''))
              = [[Str ''CATMA_1'', Str ''Plot annotations'', Str ''the knight'', Str ''Hero'',
                  Str ''mood'', Str ''sad,calm''],
                 [Str ''CATMA_1'', Str ''Plot annotations'', Str ''the knight'', Str ''Hero'',
                  Str ''certainty'', Str []]]
            \<and> map fst (columns (csv_table
                (write_annotation_csv ac (PyStr ''all'') ''all'' True ''PropertyAnnotationTable'')))
              = [''id'', ''annotation_collection'', ''tag'', ''text'', ''property'', ''values'']
            \<and> rows_of (csv_table
                (write_annotation_csv ac (PyStr ''all'') ''all'' True ''PropertyAnnotationTable''))
              = [[Str ''CATMA_1'', Str ''Plot annotations'', Str ''Hero'', Str ''the knight'',
                  Str ''certainty'', Str []]]
            \<and> csv_sep (write_annotation_csv ac (PyStr ''all'') ''all'' False ''PropertyAnnotationTable'')
              = CHR '';''"
    by code_simp
  then show ?thesis by (auto split: sum.splits)
qed

lemma constructed_and: "(case x of Inl e \<Rightarrow> False | Inr a \<Rightarrow> P a) \<Longrightarrow> \<exists>a. x = Inr a \<and> P a"
  by (cases x) auto

text \<open>
  C8 at collection \<open>C_1\<close> and a table of one row with an unknown identifier: the loop does
  not raise and counts the row as missed (lemma \<open>import_rows_counts\<close>: every row moves
  exactly one counter), but the count of missed rows does not reach the caller: what
  \<open>read_annotation_csv\<close> prints and does is the same as for a table without rows, and only
  the count of updated rows is printed.
\<close>

theorem missed_count_not_reported:
  "\<exists>ac. AnnotationCollection example_storage ''C_1'' example_project = Inr ac
     \<and> import_rows (annotation_dict ac) [unknown_id_row]
           \<lparr>calls = [], annotation_counter = 0, missed_annotation_counter = 0\<rparr>
         = Inr \<lparr>calls = [], annotation_counter = 0, missed_annotation_counter = 1\<rparr>
     \<and> import_rows (annotation_dict ac) []
           \<lparr>calls = [], annotation_counter = 0, missed_annotation_counter = 0\<rparr>
         = Inr \<lparr>calls = [], annotation_counter = 0, missed_annotation_counter = 0\<rparr>
     \<and> read_annotation_csv ac [unknown_id_row] False =
         Inr \<lparr>calls_made = [],
              printed = [''Updated values for 0 annotations.'',
                         ''Your annotations are stored in CATMA_P/collections/C_1/''],
              commands = []\<rparr>
     \<and> read_annotation_csv ac [unknown_id_row] False = read_annotation_csv ac [] False"
proof -
  have "case AnnotationCollection example_storage ''C_1'' example_project of
          Inl e \<Rightarrow> False
        | Inr ac \<Rightarrow>
            import_rows (annotation_dict ac) [unknown_id_row]
                \<lparr>calls = [], annotation_counter = 0, missed_annotation_counter = 0\<rparr>
              = Inr \<lparr>calls = [], annotation_counter = 0, missed_annotation_counter = 1\<rparr>
            \<and> import_rows (annotation_dict ac) []
                \<lparr>calls = [], annotation_counter = 0, missed_annotation_counter = 0\<rparr>
              = Inr \<lparr>calls = [], annotation_counter = 0, missed_annotation_counter = 0\<rparr>
            \<and> read_annotation_csv ac [unknown_id_row] False =
                Inr \<lparr>calls_made = [],
                     printed = [''Updated values for 0 annotations.'',
                                ''Your annotations are stored in CATMA_P/collections/C_1/''],
                     commands = []\<rparr>
            \<and> read_annotation_csv ac [unknown_id_row] False = read_annotation_csv ac [] False"
    by code_simp
  then show ?thesis by (rule constructed_and)
qed

section \<open>Proofs: export and import\<close>









lemma field_read_kept: "kept_as_str s \<Longrightarrow> field_read (Str s) got \<Longrightarrow> got = Str s"
  by (simp add: field_read_def kept_as_str_def split: if_splits)


lemma field_read_marker: "s \<in> set na_values \<Longrightarrow> field_read (Str s) got \<Longrightarrow> got = NaN"
  by (simp add: field_read_def)

text \<open>A row of six cells under six column names.\<close>

lemma six_cells:
  assumes names: "map fst row = [n1, n2, n3, n4, n5, n6]"
    and cells: "list_all2 R [w1, w2, w3, w4, w5, w6] (map snd row)"
  shows "\<exists>c1 c2 c3 c4 c5 c6.
           row = [(n1, c1), (n2, c2), (n3, c3), (n4, c4), (n5, c5), (n6, c6)]
           \<and> R w1 c1 \<and> R w2 c2 \<and> R w3 c3 \<and> R w4 c4 \<and> R w5 c5 \<and> R w6 c6"
proof -
  from cells obtain c1 c2 c3 c4 c5 c6 where
    snds: "map snd row = [c1, c2, c3, c4, c5, c6]"
    and related: "R w1 c1" "R w2 c2" "R w3 c3" "R w4 c4" "R w5 c5" "R w6 c6"
    by (auto simp: list_all2_Cons1)
  have "row = zip (map fst row) (map snd row)"
    by (simp add: zip_map_fst_snd)
  then have "row = [(n1, c1), (n2, c2), (n3, c3), (n4, c4), (n5, c5), (n6, c6)]"
    unfolding names snds by simp
  with related show ?thesis by blast
qed


text \<open>
  Every file with a column is read as some table: each row of the file gives a row of the
  table.
\<close>

lemma pd_read_csv_returns:
  assumes cols: "columns (csv_table file) \<noteq> []"
  shows "\<exists>annotation_table. pd_read_csv file annotation_table"
proof -
  let ?names = "map fst (columns (csv_table file))"
  let ?cell = "\<lambda>c. case c of Str s \<Rightarrow> if s \<in> set na_values then NaN else Str s | _ \<Rightarrow> c"
  let ?row = "\<lambda>written. zip ?names (map ?cell written)"
  have cell: "field_read c (?cell c)" for c
    by (cases c) (simp_all add: field_read_def)
  have "map fst (?row written) = ?names \<and> list_all2 field_read written (map snd (?row written))"
    if "written \<in> set (rows_of (csv_table file))" for written
  proof -
    from that have len: "length written = length ?names"
      by (auto simp: rows_of_def)
    then have "map snd (?row written) = map ?cell written" "map fst (?row written) = ?names"
      by simp_all
    moreover have "list_all2 field_read written (map ?cell written)"
      unfolding list_all2_map2 by (rule list_all2_refl) (rule cell)
    ultimately show ?thesis by simp
  qed
  then have each: "\<forall>written\<in>set (rows_of (csv_table file)).
      map fst (?row written) = ?names \<and> list_all2 field_read written (map snd (?row written))"
    by blast
  have "list_all2
         (\<lambda>written written'. map fst (?row written') = ?names
            \<and> list_all2 field_read written (map snd (?row written')))
         (rows_of (csv_table file)) (rows_of (csv_table file))"
    using each by (simp only: list_all2_same)
  then have "list_all2
         (\<lambda>written row. map fst row = ?names \<and> list_all2 field_read written (map snd row))
         (rows_of (csv_table file)) (map ?row (rows_of (csv_table file)))"
    by (simp only: list_all2_map2)
  with cols show ?thesis
    unfolding pd_read_csv_def by blast
qed

text \<open>An export without rows cannot be read back: the file has no columns.\<close>

lemma empty_export_not_read:
  "selected_annotations self tags_arg = [] \<Longrightarrow>
   \<not> pd_read_csv (write_annotation_csv self tags_arg property only_missing_prop_values filename)
       annotation_table"
  by (simp add: pd_read_csv_def write_annotation_csv_def DataFrame_dicts_def)

text \<open>
  At collection \<open>C_6\<close> the export writes the values field \<open>NA\<close>, which is not empty; read
  back it is a missing value and not a \<open>str\<close>, so the import makes no call. This loss comes
  from the defaults of \<open>pd.read_csv\<close> at line 617.
\<close>

lemma marker_value_not_imported:
  "\<exists>ac. AnnotationCollection marker_storage ''C_6'' example_project = Inr ac
     \<and> rows_of (csv_table (write_annotation_csv ac (PyStr ''all'') ''all'' False ''PropertyAnnotationTable''))
         = [[Str ''CATMA_6'', Str ''Plot annotations'', Str ''sea'', Str ''Plot'', Str ''mood'',
             Str ''NA'']]
     \<and> pd_read_csv (write_annotation_csv ac (PyStr ''all'') ''all'' False ''PropertyAnnotationTable'')
         marker_rows_read
     \<and> (\<exists>report. read_annotation_csv ac marker_rows_read False = Inr report
           \<and> calls_made report = [])"
proof -
  have "case AnnotationCollection marker_storage ''C_6'' example_project of
          Inl e \<Rightarrow> False
        | Inr ac \<Rightarrow>
            rows_of (csv_table (write_annotation_csv ac (PyStr ''all'') ''all'' False ''PropertyAnnotationTable''))
              = [[Str ''CATMA_6'', Str ''Plot annotations'', Str ''sea'', Str ''Plot'', Str ''mood'',
                  Str ''NA'']]
            \<and> pd_read_csv (write_annotation_csv ac (PyStr ''all'') ''all'' False ''PropertyAnnotationTable'')
                marker_rows_read
            \<and> (case read_annotation_csv ac marker_rows_read False of
                  Inl e \<Rightarrow> False
                | Inr report \<Rightarrow> calls_made report = [])"
    by code_simp
  then show ?thesis by (auto split: sum.splits)
qed




text \<open>
  The table \<open>comma_rows_read\<close> is the only one that reading the file of collection \<open>C_5\<close>
  returns: each of its six fields is kept as a string.
\<close>

lemma comma_rows_read_only:
  assumes built: "AnnotationCollection example_storage ''C_5'' example_project = Inr ac"
    and read: "pd_read_csv
        (write_annotation_csv ac (PyStr ''all'') ''all'' False ''PropertyAnnotationTable'')
        annotation_table"
  shows "annotation_table = comma_rows_read"
proof -
  let ?file = "write_annotation_csv ac (PyStr ''all'') ''all'' False ''PropertyAnnotationTable''"
  have "case AnnotationCollection example_storage ''C_5'' example_project of
          Inl e \<Rightarrow> False
        | Inr ac \<Rightarrow>
            rows_of (csv_table (write_annotation_csv ac (PyStr ''all'') ''all'' False ''PropertyAnnotationTable''))
              = [[Str ''CATMA_9'', Str ''Plot annotations'', Str ''sea'', Str ''Plot'', Str ''mood'',
                  Str ''sad, calm'']]
            \<and> map fst (columns (csv_table
                 (write_annotation_csv ac (PyStr ''all'') ''all'' False ''PropertyAnnotationTable'')))
              = [''id'', ''annotation_collection'', ''text'', ''tag'', ''property'', ''values'']"
    by code_simp
  with built have rows: "rows_of (csv_table ?file)
        = [[Str ''CATMA_9'', Str ''Plot annotations'', Str ''sea'', Str ''Plot'', Str ''mood'',
            Str ''sad, calm'']]"
    and names: "map fst (columns (csv_table ?file))
        = [''id'', ''annotation_collection'', ''text'', ''tag'', ''property'', ''values'']"
    by simp_all
  from read obtain row where one: "annotation_table = [row]"
    and row_names: "map fst row
        = [''id'', ''annotation_collection'', ''text'', ''tag'', ''property'', ''values'']"
    and cells: "list_all2 field_read
        [Str ''CATMA_9'', Str ''Plot annotations'', Str ''sea'', Str ''Plot'', Str ''mood'',
         Str ''sad, calm''] (map snd row)"
    unfolding pd_read_csv_def rows names by (auto simp: list_all2_Cons1)
  from six_cells[OF row_names cells] obtain c1 c2 c3 c4 c5 c6 where
    row: "row = [(''id'', c1), (''annotation_collection'', c2), (''text'', c3),
                 (''tag'', c4), (''property'', c5), (''values'', c6)]"
    and r: "field_read (Str ''CATMA_9'') c1" "field_read (Str ''Plot annotations'') c2"
      "field_read (Str ''sea'') c3" "field_read (Str ''Plot'') c4" "field_read (Str ''mood'') c5"
      "field_read (Str ''sad, calm'') c6"
    by blast
  have k: "kept_as_str ''CATMA_9''" "kept_as_str ''Plot annotations''" "kept_as_str ''sea''"
    "kept_as_str ''Plot''" "kept_as_str ''mood''" "kept_as_str ''sad, calm''"
    by code_simp+
  have "c1 = Str ''CATMA_9''" "c2 = Str ''Plot annotations''" "c3 = Str ''sea''"
    "c4 = Str ''Plot''" "c5 = Str ''mood''" "c6 = Str ''sad, calm''"
    using field_read_kept[OF k(1) r(1)] field_read_kept[OF k(2) r(2)]
      field_read_kept[OF k(3) r(3)] field_read_kept[OF k(4) r(4)]
      field_read_kept[OF k(5) r(5)] field_read_kept[OF k(6) r(6)] by simp_all
  then show ?thesis
    unfolding one row comma_rows_read_def by simp
qed

text \<open>
  The same for collection \<open>C_6\<close>: the values field \<open>NA\<close> is read as a missing value in every
  table that reading the file returns, so no such import makes a call.
\<close>

lemma marker_rows_read_only:
  assumes built: "AnnotationCollection marker_storage ''C_6'' example_project = Inr ac"
    and read: "pd_read_csv
        (write_annotation_csv ac (PyStr ''all'') ''all'' False ''PropertyAnnotationTable'')
        annotation_table"
  shows "annotation_table = marker_rows_read"
proof -
  let ?file = "write_annotation_csv ac (PyStr ''all'') ''all'' False ''PropertyAnnotationTable''"
  have "case AnnotationCollection marker_storage ''C_6'' example_project of
          Inl e \<Rightarrow> False
        | Inr ac \<Rightarrow>
            rows_of (csv_table (write_annotation_csv ac (PyStr ''all'') ''all'' False ''PropertyAnnotationTable''))
              = [[Str ''CATMA_6'', Str ''Plot annotations'', Str ''sea'', Str ''Plot'', Str ''mood'',
                  Str ''NA'']]
            \<and> map fst (columns (csv_table
                 (write_annotation_csv ac (PyStr ''all'') ''all'' False ''PropertyAnnotationTable'')))
              = [''id'', ''annotation_collection'', ''text'', ''tag'', ''property'', ''values'']"
    by code_simp
  with built have rows: "rows_of (csv_table ?file)
        = [[Str ''CATMA_6'', Str ''Plot annotations'', Str ''sea'', Str ''Plot'', Str ''mood'',
            Str ''NA'']]"
    and names: "map fst (columns (csv_table ?file))
        = [''id'', ''annotation_collection'', ''text'', ''tag'', ''property'', ''values'']"
    by simp_all
  from read obtain row where one: "annotation_table = [row]"
    and row_names: "map fst row
        = [''id'', ''annotation_collection'', ''text'', ''tag'', ''property'', ''values'']"
    and cells: "list_all2 field_read
        [Str ''CATMA_6'', Str ''Plot annotations'', Str ''sea'', Str ''Plot'', Str ''mood'',
         Str ''NA''] (map snd row)"
    unfolding pd_read_csv_def rows names by (auto simp: list_all2_Cons1)
  from six_cells[OF row_names cells] obtain c1 c2 c3 c4 c5 c6 where
    row: "row = [(''id'', c1), (''annotation_collection'', c2), (''text'', c3),
                 (''tag'', c4), (''property'', c5), (''values'', c6)]"
    and r: "field_read (Str ''CATMA_6'') c1" "field_read (Str ''Plot annotations'') c2"
      "field_read (Str ''sea'') c3" "field_read (Str ''Plot'') c4" "field_read (Str ''mood'') c5"
      "field_read (Str ''NA'') c6"
    by blast
  have k: "kept_as_str ''CATMA_6''" "kept_as_str ''Plot annotations''" "kept_as_str ''sea''"
    "kept_as_str ''Plot''" "kept_as_str ''mood''"
    by code_simp+
  have marker: "''NA'' \<in> set na_values"
    by code_simp
  have "c1 = Str ''CATMA_6''" "c2 = Str ''Plot annotations''" "c3 = Str ''sea''"
    "c4 = Str ''Plot''" "c5 = Str ''mood''" "c6 = NaN"
    using field_read_kept[OF k(1) r(1)] field_read_kept[OF k(2) r(2)]
      field_read_kept[OF k(3) r(3)] field_read_kept[OF k(4) r(4)]
      field_read_kept[OF k(5) r(5)] field_read_marker[OF marker r(6)] by simp_all
  then show ?thesis
    unfolding one row marker_rows_read_def by simp
qed

lemma marker_value_lost:
  assumes built: "AnnotationCollection marker_storage ''C_6'' example_project = Inr ac"
    and read: "pd_read_csv
        (write_annotation_csv ac (PyStr ''all'') ''all'' False ''PropertyAnnotationTable'')
        annotation_table"
  shows "\<exists>report. read_annotation_csv ac annotation_table False = Inr report
           \<and> calls_made report = []"
proof -
  from marker_value_not_imported built
  have "\<exists>report. read_annotation_csv ac marker_rows_read False = Inr report
           \<and> calls_made report = []"
    by auto
  with marker_rows_read_only[OF built read] show ?thesis by simp
qed

end
